theory Spec2Isabelle
  imports Complex_Main
begin

section \<open>Numbers and errors\<close>

text \<open>
  Python integers are \<open>int\<close>. A Python float is a double; it is modelled by the real
  number it stands for, and an arithmetic result by the exact real result, which the
  program rounds to a double. Where the program turns a float back into an integer, the
  embedding is kept to the inputs on which the double arithmetic before the truncation
  does not change the integer.
\<close>

datatype py_error = ZeroDivisionError

text \<open>
  The integers up to \<open>2^53\<close> in magnitude: a double holds each of them exactly, and
  every one of them that is a multiple of 8 stays exact when multiplied by 4.
\<close>

definition double_exact :: "int \<Rightarrow> bool" where
  "double_exact k = (\<bar>k\<bar> \<le> 2 ^ 53)"

text \<open>Python's \<open>int(x)\<close> on a float: truncation toward zero.\<close>

definition py_int :: "real \<Rightarrow> int" where
  "py_int x = (if 0 \<le> x then \<lfloor>x\<rfloor> else \<lceil>x\<rceil>)"

section \<open>DirettaCalculator\<close>

definition ETH_HEADER :: int where "ETH_HEADER = 14"
definition DIRETTA_HEADER :: int where "DIRETTA_HEADER = 2"
definition VLAN_OVERHEAD :: int where "VLAN_OVERHEAD = 4"
definition FCS :: int where "FCS = 4"

record calculator =
  mtu :: int
  overhead :: int
  available_payload :: int

text \<open>The constructor \<open>DirettaCalculator.__init__\<close>.\<close>

definition DirettaCalculator :: "int \<Rightarrow> calculator" where
  "DirettaCalculator m =
     \<lparr>mtu = m,
      overhead = ETH_HEADER + DIRETTA_HEADER + VLAN_OVERHEAD,
      available_payload = m - (ETH_HEADER + DIRETTA_HEADER + VLAN_OVERHEAD)\<rparr>"

text \<open>The dictionary returned by \<open>calculate_frame_params\<close>, one field per key.\<close>

record frame_params =
  sample_rate :: int
  sample_rate_mhz :: real
  samples_per_frame :: int
  audio_bytes :: int
  total_frame_size :: int
  cycle_time_us :: real
  cycle_time_ms :: real
  packet_rate_hz :: real
  bytes_per_sample :: real
  is_dsd :: bool

text \<open>
  \<open>calculate_frame_params\<close>. The two true divisions raise \<open>ZeroDivisionError\<close> on a
  zero divisor: first \<open>samples_per_frame / sample_rate\<close>, then
  \<open>sample_rate / samples_per_frame\<close>.

  The result is \<open>None\<close> when the payload or the sample rate is beyond \<open>2^53\<close> in
  magnitude: the embedding does not say what the program does there. On such inputs the
  quotient \<open>available_payload / 8\<close> and the conversions of the integers to floats are
  rounded to a double before \<open>int\<close> truncates them, so the integers the program
  returns are no longer those of the exact quotients (with an MTU of \<open>2^56 + 44\<close> it
  returns \<open>audio_bytes\<close> 8 above the payload), and on still larger inputs the divisions
  raise \<open>OverflowError\<close>. Within the range the payload over 8, the aligned payload
  times 4 and the samples times 0.25 are exact doubles, and the aligned payload over 6 is
  rounded by less than the third that separates it from the next integer, so the three
  integers of the result are those of the exact arithmetic below. The float fields are given
  as the exact quotients and products; the program computes them in double arithmetic,
  rounding each operation.
\<close>

definition calculate_frame_params ::
    "calculator \<Rightarrow> int \<Rightarrow> bool \<Rightarrow> (py_error + frame_params) option" where
  "calculate_frame_params self rate dsd =
     (if double_exact (available_payload self) \<and> double_exact rate
      then Some
        (let bps = (if dsd then 0.25 else 6 :: real);
             audio_bytes_max = py_int (real_of_int (available_payload self) / 8) * 8;
             spf = py_int (real_of_int audio_bytes_max / bps);
             ab = py_int (real_of_int spf * bps)
         in if rate = 0 then Inl ZeroDivisionError
            else let ct = (real_of_int spf / real_of_int rate) * 1000000
                 in if spf = 0 then Inl ZeroDivisionError
                    else Inr \<lparr>sample_rate = rate,
                              sample_rate_mhz = real_of_int rate / 1000000,
                              samples_per_frame = spf,
                              audio_bytes = ab,
                              total_frame_size = ETH_HEADER + DIRETTA_HEADER + ab + FCS,
                              cycle_time_us = ct,
                              cycle_time_ms = ct / 1000,
                              packet_rate_hz = real_of_int rate / real_of_int spf,
                              bytes_per_sample = bps,
                              is_dsd = dsd\<rparr>)
      else None)"


section \<open>Regular expressions\<close>

text \<open>
  The two patterns of the program use literal characters, the classes \<open>\s\<close>, \<open>\d\<close> and
  \<open>[+-]\<close>, the greedy quantifiers \<open>+\<close>, \<open>*\<close> and \<open>?\<close> on a single character or class,
  and capturing groups. Text is a list of 8-bit characters; on these code points Python's
  \<open>\s\<close> for \<open>str\<close> patterns is the twelve characters below and \<open>\d\<close> is \<open>0\<close> to \<open>9\<close>.
\<close>

definition is_space :: "char \<Rightarrow> bool" where
  "is_space c = (c \<in> set [CHR 0x09, CHR 0x0A, CHR 0x0B, CHR 0x0C, CHR 0x0D,
                           CHR 0x1C, CHR 0x1D, CHR 0x1E, CHR 0x1F, CHR 0x20,
                           CHR 0x85, CHR 0xA0])"

definition is_digit :: "char \<Rightarrow> bool" where
  "is_digit c = (c \<in> set ''0123456789'')"

datatype atom = Chr char | Space | Digit | Sign

fun atom_ok :: "atom \<Rightarrow> char \<Rightarrow> bool" where
  "atom_ok (Chr a) c = (c = a)"
| "atom_ok Space c = is_space c"
| "atom_ok Digit c = is_digit c"
| "atom_ok Sign c = (c = CHR ''+'' \<or> c = CHR ''-'')"

datatype item = One atom | Plus atom | Star atom | Opt atom | Open | Close

text \<open>A character consumed inside an open group is added to that group's text.\<close>

fun push :: "char \<Rightarrow> string option \<Rightarrow> string option" where
  "push c None = None"
| "push c (Some g) = Some (g @ [c])"

fun close_group :: "string option \<Rightarrow> string" where
  "close_group None = []"
| "close_group (Some g) = g"

text \<open>
  The backtracking matcher of \<open>re\<close>, anchored at the start of the text: alternatives are
  tried in Python's priority order (a greedy quantifier first takes one more character and
  gives it back only when the rest of the pattern fails), and the first success is the
  match. The result is the captured groups and the text left after the match.
\<close>

fun bt :: "item list \<Rightarrow> string \<Rightarrow> string option \<Rightarrow> string list \<Rightarrow> (string list \<times> string) option" where
  "bt [] s cur caps = Some (caps, s)"
| "bt (Open # r) s cur caps = bt r s (Some []) caps"
| "bt (Close # r) s cur caps = bt r s None (caps @ [close_group cur])"
| "bt (One a # r) [] cur caps = None"
| "bt (One a # r) (c # cs) cur caps =
     (if atom_ok a c then bt r cs (push c cur) caps else None)"
| "bt (Opt a # r) [] cur caps = bt r [] cur caps"
| "bt (Opt a # r) (c # cs) cur caps =
     (if atom_ok a c
      then (case bt r cs (push c cur) caps of
              Some m \<Rightarrow> Some m
            | None \<Rightarrow> bt r (c # cs) cur caps)
      else bt r (c # cs) cur caps)"
| "bt (Plus a # r) [] cur caps = None"
| "bt (Plus a # r) (c # cs) cur caps =
     (if atom_ok a c
      then (case bt (Plus a # r) cs (push c cur) caps of
              Some m \<Rightarrow> Some m
            | None \<Rightarrow> bt r cs (push c cur) caps)
      else None)"
| "bt (Star a # r) [] cur caps = bt r [] cur caps"
| "bt (Star a # r) (c # cs) cur caps =
     (if atom_ok a c
      then (case bt (Star a # r) cs (push c cur) caps of
              Some m \<Rightarrow> Some m
            | None \<Rightarrow> bt r (c # cs) cur caps)
      else bt r (c # cs) cur caps)"

text \<open>\<open>re.search\<close>: the match at the leftmost position that has one.\<close>

fun re_search :: "item list \<Rightarrow> string \<Rightarrow> string list option" where
  "re_search p [] = map_option fst (bt p [] None [])"
| "re_search p (c # cs) =
     (case bt p (c # cs) None [] of
        Some m \<Rightarrow> Some (fst m)
      | None \<Rightarrow> re_search p cs)"

text \<open>
  \<open>re.finditer\<close>: the non-overlapping matches from left to right; after a match the scan
  resumes where the match ended, after a failure one character further. (After an empty
  match the scan moves on by one character; the program's pattern never matches the empty
  text.)
\<close>

function finditer :: "item list \<Rightarrow> string \<Rightarrow> string list list" where
  "finditer p s =
     (case bt p s None [] of
        None \<Rightarrow> (case s of [] \<Rightarrow> [] | c # cs \<Rightarrow> finditer p cs)
      | Some m \<Rightarrow>
          (if length (snd m) < length s then fst m # finditer p (snd m)
           else fst m # (case s of [] \<Rightarrow> [] | c # cs \<Rightarrow> finditer p cs)))"
  by pat_completeness auto
termination
  by (relation "measure (\<lambda>(p, s). length s)") auto

declare finditer.simps [simp del]

text \<open>A literal word of the pattern, character by character.\<close>

definition lit :: "string \<Rightarrow> item list" where
  "lit w = map (\<lambda>c. One (Chr c)) w"

text \<open>The group \<open>([+-]?\d+\.\d+)\<close> and the group \<open>(\d+)\<close>.\<close>

definition decimal_group :: "item list" where
  "decimal_group = [Open, Opt Sign, Plus Digit, One (Chr CHR ''.''), Plus Digit, Close]"

definition number_group :: "item list" where
  "number_group = [Open, Plus Digit, Close]"

text \<open>
  \<open>info\s+rcv\s+\d+\s+([+-]?\d+\.\d+)\s+([+-]?\d+\.\d+)\s+([+-]?\d+\.\d+)\s+cy=(\d+)\<close>
\<close>

definition pattern :: "item list" where
  "pattern = lit ''info'' @ [Plus Space] @ lit ''rcv'' @ [Plus Space] @ [Plus Digit] @ [Plus Space]
             @ decimal_group @ [Plus Space] @ decimal_group @ [Plus Space] @ decimal_group
             @ [Plus Space] @ lit ''cy='' @ number_group"

text \<open>\<open>CycleTime\s*=\s*(\d+)\<close>\<close>

definition cycle_time_pattern :: "item list" where
  "cycle_time_pattern = lit ''CycleTime'' @ [Star Space] @ lit ''='' @ [Star Space] @ number_group"

section \<open>Conversion of captured text\<close>

definition digit_val :: "char \<Rightarrow> nat" where
  "digit_val c = of_char c - 48"

definition nat_of_digits :: "string \<Rightarrow> nat" where
  "nat_of_digits s = foldl (\<lambda>n c. 10 * n + digit_val c) 0 s"

text \<open>
  Python's \<open>float\<close> on the texts the patterns capture: an optional sign, digits, and
  optionally a point and more digits, with at least one digit. \<open>None\<close> stands for
  \<open>ValueError\<close>. (Python's \<open>float\<close> also reads exponents, \<open>inf\<close>, \<open>nan\<close> and surrounding
  blanks; no capture of the two patterns has such a form.)
\<close>

definition strip_sign :: "string \<Rightarrow> real \<times> string" where
  "strip_sign s =
     (case s of
        [] \<Rightarrow> (1, [])
      | c # cs \<Rightarrow> if c = CHR ''-'' then (-1, cs) else if c = CHR ''+'' then (1, cs) else (1, s))"

definition py_float :: "string \<Rightarrow> real option" where
  "py_float s =
     (let sg = fst (strip_sign s);
          body = snd (strip_sign s);
          ip = takeWhile is_digit body;
          rest = dropWhile is_digit body
      in case rest of
           [] \<Rightarrow> if ip = [] then None else Some (sg * real (nat_of_digits ip))
         | c # fp \<Rightarrow>
             if c = CHR ''.'' \<and> list_all is_digit fp \<and> length ip + length fp > 0
             then Some (sg * (real (nat_of_digits ip) + real (nat_of_digits fp) / 10 ^ length fp))
             else None)"

section \<open>DirettaMonitor: the extractor\<close>

text \<open>
  The body of the loop of \<open>parse_diretta_logs\<close> for one match: the four conversions, then
  the four appends. A failed conversion (or a missing group) leaves the lists as they were.
\<close>

definition convert_match :: "string list \<Rightarrow> (real \<times> real \<times> real \<times> real) option" where
  "convert_match groups =
     (case groups of
        [g1, g2, g3, g4] \<Rightarrow>
          (case py_float g1 of None \<Rightarrow> None | Some diff \<Rightarrow>
           case py_float g2 of None \<Rightarrow> None | Some avg \<Rightarrow>
           case py_float g3 of None \<Rightarrow> None | Some corr \<Rightarrow>
           case py_float g4 of None \<Rightarrow> None | Some cy_ps \<Rightarrow>
             Some (diff, avg, corr, cy_ps / 1000000))
      | _ \<Rightarrow> None)"

text \<open>The returned dictionary, as the list of its four items in insertion order.\<close>

type_synonym parsed = "(string \<times> real list) list"

definition parse_diretta_logs :: "string \<Rightarrow> parsed" where
  "parse_diretta_logs logs =
     (let rows = List.map_filter convert_match (finditer pattern logs)
      in [(''buffer_diff'', map (\<lambda>(d, a, c, y). d) rows),
          (''buffer_avg'', map (\<lambda>(d, a, c, y). a) rows),
          (''correction'', map (\<lambda>(d, a, c, y). c) rows),
          (''cycle_times'', map (\<lambda>(d, a, c, y). y) rows)])"

text \<open>\<open>d[k]\<close> for a key the dictionary has (the four keys are always present).\<close>

definition item_of :: "parsed \<Rightarrow> string \<Rightarrow> real list" where
  "item_of d k = (case map_of d k of Some v \<Rightarrow> v | None \<Rightarrow> [])"

text \<open>
  \<open>_detect_cycle_time\<close>. Each candidate path is given as its content, or \<open>None\<close> when the
  file does not exist or cannot be read; a file without the assignment, or a conversion
  that raises, moves on to the next path.
\<close>

fun detect_cycle_time :: "string option list \<Rightarrow> real option" where
  "detect_cycle_time [] = None"
| "detect_cycle_time (None # paths) = detect_cycle_time paths"
| "detect_cycle_time (Some content # paths) =
     (case re_search cycle_time_pattern content of
        None \<Rightarrow> detect_cycle_time paths
      | Some groups \<Rightarrow>
          (case groups of
             [g] \<Rightarrow> (case py_float g of Some v \<Rightarrow> Some v | None \<Rightarrow> detect_cycle_time paths)
           | _ \<Rightarrow> detect_cycle_time paths))"

section \<open>DirettaMonitor: the statistics\<close>

text \<open>The dictionary returned by \<open>analyze_stability\<close>, one field per key.\<close>

record stats =
  count :: nat
  mean :: real
  stdev :: real
  min_val :: real
  max_val :: real
  range_val :: real
  q1 :: real
  q3 :: real
  iqr :: real

definition np_mean :: "real list \<Rightarrow> real" where
  "np_mean xs = sum_list xs / real (length xs)"

text \<open>\<open>np.std\<close>: the population standard deviation.\<close>

definition np_std :: "real list \<Rightarrow> real" where
  "np_std xs = sqrt (sum_list (map (\<lambda>x. (x - np_mean xs)\<^sup>2) xs) / real (length xs))"

text \<open>
  \<open>np.percentile\<close> with its default linear interpolation between the two order
  statistics around the position \<open>(n - 1) * q / 100\<close>.
\<close>

definition np_percentile :: "real list \<Rightarrow> real \<Rightarrow> real" where
  "np_percentile xs q =
     (let sorted_xs = sort xs;
          n = length xs;
          virtual_index = real (n - 1) * q / 100;
          previous = nat \<lfloor>virtual_index\<rfloor>;
          following = min (previous + 1) (n - 1);
          gamma = virtual_index - real previous
      in sorted_xs ! previous + gamma * (sorted_xs ! following - sorted_xs ! previous))"

text \<open>
  \<open>analyze_stability\<close>. Below two values the zero record is returned, with the count kept;
  \<open>np.min\<close> and \<open>np.max\<close> are only reached on two values or more.
\<close>

definition analyze_stability :: "real list \<Rightarrow> string \<Rightarrow> stats" where
  "analyze_stability values data_type =
     (let n = length values
      in if n < 2
         then \<lparr>count = n, mean = 0, stdev = 0, min_val = 0, max_val = 0, range_val = 0,
               q1 = 0, q3 = 0, iqr = 0\<rparr>
         else \<lparr>count = n,
               mean = np_mean values,
               stdev = np_std values,
               min_val = Min (set values),
               max_val = Max (set values),
               range_val = Max (set values) - Min (set values),
               q1 = np_percentile values 25,
               q3 = np_percentile values 75,
               iqr = np_percentile values 75 - np_percentile values 25\<rparr>)"

section \<open>DirettaMonitor: grades and the report\<close>

datatype grade = Exceptional | Excellent | Very_Good | Good | Fair | Poor

text \<open>The order of the grades, best first: a larger rank is a better grade.\<close>

fun grade_rank :: "grade \<Rightarrow> nat" where
  "grade_rank Exceptional = 5"
| "grade_rank Excellent = 4"
| "grade_rank Very_Good = 3"
| "grade_rank Good = 2"
| "grade_rank Fair = 1"
| "grade_rank Poor = 0"

text \<open>The chain that sets \<open>quality_assessment\<close> from \<open>iqr_pct\<close>.\<close>

definition jitter_quality :: "real \<Rightarrow> grade" where
  "jitter_quality iqr_pct =
     (if iqr_pct < 0.1 then Exceptional
      else if iqr_pct < 0.5 then Excellent
      else if iqr_pct < 1.0 then Very_Good
      else if iqr_pct < 2.0 then Good
      else if iqr_pct < 5.0 then Fair
      else Poor)"

text \<open>The chain that sets \<open>quality\<close> from the correction statistics.\<close>

definition buffer_quality :: "real \<Rightarrow> real \<Rightarrow> grade" where
  "buffer_quality iqr_c abs_mean_correction =
     (if iqr_c < 0.001 \<and> abs_mean_correction < 0.005 then Exceptional
      else if iqr_c < 0.005 \<and> abs_mean_correction < 0.010 then Excellent
      else if iqr_c < 0.010 \<and> abs_mean_correction < 0.020 then Good
      else if iqr_c < 0.020 then Fair
      else Poor)"

text \<open>
  The report is the list of the lines appended to it. A line is recorded by what it says
  and the values it prints; the layout of numbers is not modelled. \<open>Guide_Line i\<close> is the
  \<open>i\<close>-th of the 35 fixed lines of the interpretation guide that open every report.
\<close>

datatype report_line =
    Guide_Line nat
  | Rule_Eq
  | Rule_Dash
  | Blank
  | Title int
  | Service string
  | Generated string
  | Expected_From_Configuration real
  | Expected_From_Logs
  | Analyzing_Logs
  | No_Logs_Found string
  | Logs_Captured
  | Could_Not_Parse
  | Parsed_Entries nat
  | Detected_Cycle_Time real
  | Jitter_Header
  | Jitter_Assessment grade
  | Samples_Found nat
  | Expected_Cycle_Time real
  | Measured_Average real real
  | Percentage_Header
  | Standard_Deviation_Pct real real
  | Interquartile_Range_Pct real real
  | Peak_To_Peak_Pct real real
  | Absolute_Header
  | Min_Max_Cycle real real
  | No_Cy_Data
  | Buffer_Header
  | Buffer_Assessment grade
  | Samples_Analyzed nat
  | Correction_Statistics_Header
  | Mean_Correction real
  | Std_Deviation real
  | Interquartile_Range real
  | Min_Max_Correction real real
  | Total_Range real
  | Interpretation_Header
  | Positive_Mean_Note
  | Receiver_Faster_Note
  | Negative_Mean_Note
  | Receiver_Slower_Note
  | Balanced_Note
  | Low_Iqr_Note
  | Clock_Matching_Note
  | High_Iqr_Note
  | Drift_Note
  | Ptp_Note
  | Buffer_Difference_Header
  | Difference_Mean real
  | Difference_Std real
  | Difference_Range real
  | Insufficient_Data nat
  | Footer

definition interpretation_guide :: "report_line list" where
  "interpretation_guide = map Guide_Line [0..<35]"

text \<open>The object: \<open>self.service_name\<close> and \<open>self.cycle_time_us\<close> (\<open>None\<close> when not given).\<close>

record monitor =
  self_service_name :: string
  self_cycle_time_us :: "real option"

text \<open>
  The constructor \<open>DirettaMonitor.__init__\<close>. The program makes one object for each run;
  an object that is used again still holds the cycle time its last run resolved.
\<close>

definition DirettaMonitor :: "string \<Rightarrow> real option \<Rightarrow> monitor" where
  "DirettaMonitor name explicit = \<lparr>self_service_name = name, self_cycle_time_us = explicit\<rparr>"

text \<open>The truth value Python gives \<open>self.cycle_time_us\<close>: false for \<open>None\<close> and for zero.\<close>

fun truthy :: "real option \<Rightarrow> bool" where
  "truthy None = False"
| "truthy (Some x) = (x \<noteq> 0)"

text \<open>Section 1 of the report, for a non-empty list of cycle times.\<close>

definition jitter_section :: "real option \<Rightarrow> real list \<Rightarrow> report_line list" where
  "jitter_section reference cycle_times =
     (let cycle_stats = analyze_stability cycle_times ''Cycle Time''
      in (case reference of
            None \<Rightarrow> []
          | Some ct \<Rightarrow>
              if ct = 0 then []
              else (let stdev_pct = (stdev cycle_stats / ct) * 100;
                        iqr_pct = (iqr cycle_stats / ct) * 100;
                        range_pct = (range_val cycle_stats / ct) * 100
                    in [Jitter_Header,
                        Rule_Dash,
                        Jitter_Assessment (jitter_quality iqr_pct),
                        Samples_Found (count cycle_stats),
                        Expected_Cycle_Time ct,
                        Measured_Average (mean cycle_stats) (mean cycle_stats - ct),
                        Blank,
                        Percentage_Header,
                        Standard_Deviation_Pct (stdev cycle_stats) stdev_pct,
                        Interquartile_Range_Pct (iqr cycle_stats) iqr_pct,
                        Peak_To_Peak_Pct (range_val cycle_stats) range_pct,
                        Blank,
                        Absolute_Header,
                        Min_Max_Cycle (min_val cycle_stats) (max_val cycle_stats)]))
         @ [Rule_Dash])"

text \<open>Section 2 of the report, for at least ten correction values.\<close>

definition buffer_section :: "real list \<Rightarrow> real list \<Rightarrow> report_line list" where
  "buffer_section correction buffer_diff =
     (let correction_stats = analyze_stability correction ''Correction Values'';
          abs_mean_correction = \<bar>mean correction_stats\<bar>
      in [Buffer_Header,
          Rule_Dash,
          Buffer_Assessment (buffer_quality (iqr correction_stats) abs_mean_correction),
          Samples_Analyzed (length correction),
          Blank,
          Correction_Statistics_Header,
          Mean_Correction (mean correction_stats),
          Std_Deviation (stdev correction_stats),
          Interquartile_Range (iqr correction_stats),
          Min_Max_Correction (min_val correction_stats) (max_val correction_stats),
          Total_Range (range_val correction_stats),
          Blank,
          Interpretation_Header]
         @ (if abs_mean_correction > 0.015
            then (if mean correction_stats > 0
                  then [Positive_Mean_Note, Receiver_Faster_Note]
                  else [Negative_Mean_Note, Receiver_Slower_Note])
            else [Balanced_Note])
         @ (if iqr correction_stats < 0.005 then [Low_Iqr_Note, Clock_Matching_Note]
            else if iqr correction_stats > 0.020 then [High_Iqr_Note, Drift_Note, Ptp_Note]
            else [])
         @ (if buffer_diff \<noteq> []
            then (let diff_stats = analyze_stability buffer_diff ''Buffer Difference''
                  in [Blank,
                      Buffer_Difference_Header,
                      Difference_Mean (mean diff_stats),
                      Difference_Std (stdev diff_stats),
                      Difference_Range (range_val diff_stats)])
            else []))"

text \<open>
  The lines up to \<open>Analyzing logs...\<close>: the guide, the title, the service, the time of the
  run, and the expected cycle time when one is known.
\<close>

definition report_head :: "string \<Rightarrow> int \<Rightarrow> string \<Rightarrow> real option \<Rightarrow> report_line list" where
  "report_head service num_lines now reference =
     interpretation_guide
     @ [Title num_lines, Rule_Eq, Service service, Generated now]
     @ [case reference of
          None \<Rightarrow> Expected_From_Logs
        | Some ct \<Rightarrow> if ct = 0 then Expected_From_Logs else Expected_From_Configuration ct]
     @ [Analyzing_Logs]"

text \<open>The report after the dictionary has passed the test \<open>if not parsed_data\<close>.\<close>

definition report_body :: "monitor \<Rightarrow> parsed \<Rightarrow> report_line list \<times> monitor" where
  "report_body self parsed_data =
     (let cycle_times = item_of parsed_data ''cycle_times'';
          buffer_diff = item_of parsed_data ''buffer_diff'';
          buffer_avg = item_of parsed_data ''buffer_avg'';
          correction = item_of parsed_data ''correction'';
          detect = (\<not> truthy (self_cycle_time_us self) \<and> cycle_times \<noteq> []);
          self' = (if detect then self\<lparr>self_cycle_time_us := Some (np_mean cycle_times)\<rparr> else self)
      in ([Parsed_Entries (length cycle_times), Blank]
          @ (if detect then [Detected_Cycle_Time (np_mean cycle_times), Blank] else [])
          @ (if cycle_times \<noteq> [] then jitter_section (self_cycle_time_us self') cycle_times
             else [No_Cy_Data])
          @ [Blank]
          @ (if correction \<noteq> [] \<and> length correction \<ge> 10
             then buffer_section correction buffer_diff
             else [Insufficient_Data (length correction)])
          @ [Footer],
          self'))"

text \<open>
  \<open>analyze_recent_logs\<close>. The surroundings of a run are arguments: \<open>now\<close> is the text of
  the clock reading, \<open>paths\<close> the candidate configuration files, \<open>logs\<close> the output of
  the journal query (empty when the query fails). The result is the report and the object
  as the run leaves it.
\<close>

definition analyze_recent_logs ::
    "monitor \<Rightarrow> int \<Rightarrow> string \<Rightarrow> string option list \<Rightarrow> string \<Rightarrow> report_line list \<times> monitor" where
  "analyze_recent_logs self0 num_lines now paths logs =
     (let self = (if self_cycle_time_us self0 = None
                  then self0\<lparr>self_cycle_time_us := detect_cycle_time paths\<rparr>
                  else self0);
          report = report_head (self_service_name self) num_lines now (self_cycle_time_us self)
      in if logs = [] then (report @ [No_Logs_Found (self_service_name self)], self)
         else (let report = report @ [Logs_Captured, Blank];
                   parsed_data = parse_diretta_logs logs
               in if parsed_data = [] then (report @ [Could_Not_Parse], self)
                  else (report @ fst (report_body self parsed_data),
                        snd (report_body self parsed_data))))"

section \<open>Reading a report\<close>

text \<open>The grades a report states, in the order of its lines.\<close>

definition jitter_grades :: "report_line list \<Rightarrow> grade list" where
  "jitter_grades report =
     List.map_filter (\<lambda>l. case l of Jitter_Assessment g \<Rightarrow> Some g | _ \<Rightarrow> None) report"

definition buffer_grades :: "report_line list \<Rightarrow> grade list" where
  "buffer_grades report =
     List.map_filter (\<lambda>l. case l of Buffer_Assessment g \<Rightarrow> Some g | _ \<Rightarrow> None) report"

text \<open>
  The specification's threshold policy, in its own words: an ordered table of pairs of a
  predicate and a grade, read from the top, where the first predicate that holds gives
  the grade and \<open>Poor\<close> is left when none does.
\<close>

fun first_match :: "(('a \<Rightarrow> bool) \<times> grade) list \<Rightarrow> 'a \<Rightarrow> grade" where
  "first_match [] x = Poor"
| "first_match ((holds, g) # table) x = (if holds x then g else first_match table x)"

definition spec_jitter_table :: "((real \<Rightarrow> bool) \<times> grade) list" where
  "spec_jitter_table =
     [(\<lambda>pct. pct < 0.1, Exceptional),
      (\<lambda>pct. pct < 0.5, Excellent),
      (\<lambda>pct. pct < 1.0, Very_Good),
      (\<lambda>pct. pct < 2.0, Good),
      (\<lambda>pct. pct < 5.0, Fair)]"

definition spec_buffer_table :: "((real \<times> real \<Rightarrow> bool) \<times> grade) list" where
  "spec_buffer_table =
     [(\<lambda>(i, m). i < 0.001 \<and> m < 0.005, Exceptional),
      (\<lambda>(i, m). i < 0.005 \<and> m < 0.010, Excellent),
      (\<lambda>(i, m). i < 0.010 \<and> m < 0.020, Good),
      (\<lambda>(i, m). i < 0.020, Fair)]"

text \<open>A line with the time of the run blanked, to compare reports of different runs.\<close>

definition without_time :: "report_line \<Rightarrow> report_line" where
  "without_time l = (case l of Generated t \<Rightarrow> Generated [] | _ \<Rightarrow> l)"

section \<open>Log lines\<close>

text \<open>
  The shape of a line of the journal, as the docstring of \<open>parse_diretta_logs\<close> gives it:
  \<open>info rcv 2 -0.0110 -0.0110  0.0019 cy=3185960450\<close>. The fields are separated by runs
  of blanks or tabs, one run in each of the six gaps.
\<close>

definition is_number :: "string \<Rightarrow> bool" where
  "is_number s = (s \<noteq> [] \<and> list_all is_digit s)"

text \<open>A signed decimal: an optional sign, digits, a point, digits.\<close>

definition is_decimal :: "string \<Rightarrow> bool" where
  "is_decimal s =
     (let body = snd (strip_sign s);
          ip = takeWhile is_digit body;
          rest = dropWhile is_digit body
      in ip \<noteq> [] \<and>
         (case rest of
            [] \<Rightarrow> False
          | c # fp \<Rightarrow> c = CHR ''.'' \<and> fp \<noteq> [] \<and> list_all is_digit fp))"

definition is_separator :: "string \<Rightarrow> bool" where
  "is_separator w = (w \<noteq> [] \<and> list_all (\<lambda>c. c = CHR '' '' \<or> c = CHR 0x09) w)"

fun log_record :: "string list \<Rightarrow> string \<Rightarrow> string \<Rightarrow> string \<Rightarrow> string \<Rightarrow> string \<Rightarrow> string" where
  "log_record [w1, w2, w3, w4, w5, w6] n d a c p =
     ''info'' @ w1 @ ''rcv'' @ w2 @ n @ w3 @ d @ w4 @ a @ w5 @ c @ w6 @ ''cy='' @ p"
| "log_record ws n d a c p = []"

text \<open>
  A well-formed line, and a line that is well formed but for its correction field, which
  is some text without blanks that is not a signed decimal.
\<close>

definition well_formed_line :: "string list \<Rightarrow> string \<Rightarrow> string \<Rightarrow> string \<Rightarrow> string \<Rightarrow> string \<Rightarrow> bool" where
  "well_formed_line ws n d a c p =
     (length ws = 6 \<and> list_all is_separator ws \<and> is_number n \<and> is_decimal d \<and> is_decimal a
      \<and> is_decimal c \<and> is_number p)"

definition corrupted_line :: "string list \<Rightarrow> string \<Rightarrow> string \<Rightarrow> string \<Rightarrow> string \<Rightarrow> string \<Rightarrow> bool" where
  "corrupted_line ws n d a x p =
     (length ws = 6 \<and> list_all is_separator ws \<and> is_number n \<and> is_decimal d \<and> is_decimal a
      \<and> x \<noteq> [] \<and> list_all (\<lambda>ch. \<not> is_space ch) x \<and> \<not> is_decimal x \<and> is_number p)"

section \<open>The frame calculator\<close>

lemmas calc_consts = ETH_HEADER_def DIRETTA_HEADER_def VLAN_OVERHEAD_def FCS_def

lemma py_int_nonneg: "0 \<le> x \<Longrightarrow> py_int x = \<lfloor>x\<rfloor>"
  by (simp add: py_int_def)

lemma floor_eighth: "\<lfloor>real_of_int p / 8\<rfloor> = p div 8"
  using floor_divide_of_int_eq [of p 8, where ?'a = real] by simp

lemma floor_sixth: "\<lfloor>real_of_int p / 6\<rfloor> = p div 6"
  using floor_divide_of_int_eq [of p 6, where ?'a = real] by simp

lemma aligned_budget: "8 \<le> p \<Longrightarrow> 8 \<le> p div 8 * (8::int)"
  by presburger

lemma spf_positive:
  assumes "8 \<le> (p::int)"
  shows "0 < \<lfloor>real_of_int (\<lfloor>real_of_int p / 8\<rfloor> * 8) / (if dsd then 0.25 else 6 :: real)\<rfloor>"
proof -
  have a: "8 \<le> p div 8 * 8" using assms by (rule aligned_budget)
  show ?thesis
  proof (cases dsd)
    case True
    then show ?thesis using a by (simp add: floor_eighth)
  next
    case False
    have "0 < (p div 8 * 8) div 6" using a by presburger
    then show ?thesis using False by (simp add: floor_eighth floor_sixth)
  qed
qed

lemma nonneg_scaled: "0 < (k::int) \<Longrightarrow> 0 \<le> real_of_int k * (if d then 0.25 else 6 :: real)"
  by simp

lemma pos_nz: "0 < (k::int) \<Longrightarrow> (k = 0) = False"
  by simp

text \<open>
  From 28 bytes of MTU on (at least one 8-byte block of payload), and within the range of
  the embedding, the call returns, and every truncation is a floor.
\<close>

lemma calculate_frame_params_floor:
  assumes "28 \<le> m" and "m \<le> 2 ^ 53" and "0 < rate" and "rate \<le> 2 ^ 53"
  shows "available_payload (DirettaCalculator m) = m - 20 \<and>
    calculate_frame_params (DirettaCalculator m) rate dsd = Some
      (let bps = (if dsd then 0.25 else 6 :: real);
           spf = \<lfloor>real_of_int (\<lfloor>real_of_int (m - 20) / 8\<rfloor> * 8) / bps\<rfloor>;
           ab = \<lfloor>real_of_int spf * bps\<rfloor>
       in Inr \<lparr>sample_rate = rate,
                sample_rate_mhz = real_of_int rate / 1000000,
                samples_per_frame = spf,
                audio_bytes = ab,
                total_frame_size = 14 + 2 + ab + 4,
                cycle_time_us = real_of_int spf / real_of_int rate * 1000000,
                cycle_time_ms = real_of_int spf / real_of_int rate * 1000000 / 1000,
                packet_rate_hz = real_of_int rate / real_of_int spf,
                bytes_per_sample = bps,
                is_dsd = dsd\<rparr>)"
proof -
  have p: "8 \<le> m - 20" using assms(1) by simp
  have pos: "0 < \<lfloor>real_of_int (\<lfloor>real_of_int (m - 20) / 8\<rfloor> * 8) / (if dsd then 0.25 else 6 :: real)\<rfloor>"
    using p by (rule spf_positive)
  have q: "0 \<le> real_of_int (m - 20) / 8" using p by simp
  have b: "0 \<le> \<lfloor>real_of_int (m - 20) / 8\<rfloor> * 8" using p by (simp add: floor_eighth)
  have r: "0 \<le> real_of_int (\<lfloor>real_of_int (m - 20) / 8\<rfloor> * 8) / (if dsd then 0.25 else 6 :: real)"
    using b by (simp del: of_int_mult)
  have s: "0 \<le> real_of_int \<lfloor>real_of_int (\<lfloor>real_of_int (m - 20) / 8\<rfloor> * 8) / (if dsd then 0.25 else 6 :: real)\<rfloor> * (if dsd then 0.25 else 6 :: real)"
    using pos by (rule nonneg_scaled)
  have first: "available_payload (DirettaCalculator m) = m - 20"
    by (simp add: DirettaCalculator_def calc_consts)
  have nz: "(rate = 0) = False" using assms(3) by simp
  have rng: "double_exact (m - 20)" "double_exact rate"
    using assms by (simp_all add: double_exact_def)
  have sz: "(\<lfloor>real_of_int (\<lfloor>real_of_int (m - 20) / 8\<rfloor> * 8) / (if dsd then 0.25 else 6 :: real)\<rfloor> = 0) = False"
    using pos by (rule pos_nz)
  show ?thesis
    unfolding calculate_frame_params_def Let_def first
    by (simp only: py_int_nonneg [OF q] py_int_nonneg [OF r] py_int_nonneg [OF s] calc_consts
        nz sz rng if_True if_False simp_thms)
qed

lemma spf_dsd_int: "\<lfloor>real_of_int (\<lfloor>real_of_int q / 8\<rfloor> * 8) / 0.25\<rfloor> = q div 8 * 8 * 4"
proof -
  have "real_of_int (\<lfloor>real_of_int q / 8\<rfloor> * 8) / 0.25 = real_of_int (q div 8 * 8 * 4)"
    by (simp add: floor_eighth)
  then show ?thesis by (simp only: floor_of_int)
qed

lemma audio_bytes_dsd_int: "\<lfloor>real_of_int (k * 4) * 0.25\<rfloor> = k"
proof -
  have "real_of_int (k * 4) * 0.25 = real_of_int k" by simp
  then show ?thesis by (simp only: floor_of_int)
qed

lemma spf_pcm_int: "\<lfloor>real_of_int (\<lfloor>real_of_int q / 8\<rfloor> * 8) / 6\<rfloor> = q div 8 * 8 div 6"
  by (simp only: floor_eighth floor_sixth)

lemma audio_bytes_pcm_int: "\<lfloor>real_of_int k * 6\<rfloor> = k * 6"
proof -
  have "real_of_int k * 6 = real_of_int (k * 6)" by simp
  then show ?thesis by (simp only: floor_of_int)
qed

text \<open>The three fields that matter for the byte budget, in integer arithmetic.\<close>

lemma frame_fields_dsd:
  assumes "28 \<le> m" and "m \<le> 2 ^ 53" and "0 < rate" and "rate \<le> 2 ^ 53"
    and "calculate_frame_params (DirettaCalculator m) rate True = Some (Inr p)"
  shows "samples_per_frame p = (m - 20) div 8 * 8 * 4"
    and "audio_bytes p = (m - 20) div 8 * 8"
    and "bytes_per_sample p = 0.25"
proof -
  have e: "calculate_frame_params (DirettaCalculator m) rate True = Some
     (Inr \<lparr>sample_rate = rate,
                sample_rate_mhz = real_of_int rate / 1000000,
                samples_per_frame = (m - 20) div 8 * 8 * 4,
                audio_bytes = (m - 20) div 8 * 8,
                total_frame_size = 14 + 2 + (m - 20) div 8 * 8 + 4,
                cycle_time_us = real_of_int ((m - 20) div 8 * 8 * 4) / real_of_int rate * 1000000,
                cycle_time_ms = real_of_int ((m - 20) div 8 * 8 * 4) / real_of_int rate * 1000000 / 1000,
                packet_rate_hz = real_of_int rate / real_of_int ((m - 20) div 8 * 8 * 4),
                bytes_per_sample = 0.25,
                is_dsd = True\<rparr>)"
    using calculate_frame_params_floor [OF assms(1-4), of True]
    by (simp only: Let_def if_True spf_dsd_int audio_bytes_dsd_int)
  show "samples_per_frame p = (m - 20) div 8 * 8 * 4"
    using arg_cong [where f = "map_option (map_sum id samples_per_frame)", OF assms(5)] unfolding e by simp
  show "audio_bytes p = (m - 20) div 8 * 8"
    using arg_cong [where f = "map_option (map_sum id audio_bytes)", OF assms(5)] unfolding e by simp
  show "bytes_per_sample p = 0.25"
    using arg_cong [where f = "map_option (map_sum id bytes_per_sample)", OF assms(5)] unfolding e by simp
qed

lemma frame_fields_pcm:
  assumes "28 \<le> m" and "m \<le> 2 ^ 53" and "0 < rate" and "rate \<le> 2 ^ 53"
    and "calculate_frame_params (DirettaCalculator m) rate False = Some (Inr p)"
  shows "samples_per_frame p = (m - 20) div 8 * 8 div 6"
    and "audio_bytes p = (m - 20) div 8 * 8 div 6 * 6"
    and "bytes_per_sample p = 6"
proof -
  have e: "calculate_frame_params (DirettaCalculator m) rate False = Some
     (Inr \<lparr>sample_rate = rate,
                sample_rate_mhz = real_of_int rate / 1000000,
                samples_per_frame = (m - 20) div 8 * 8 div 6,
                audio_bytes = (m - 20) div 8 * 8 div 6 * 6,
                total_frame_size = 14 + 2 + (m - 20) div 8 * 8 div 6 * 6 + 4,
                cycle_time_us = real_of_int ((m - 20) div 8 * 8 div 6) / real_of_int rate * 1000000,
                cycle_time_ms = real_of_int ((m - 20) div 8 * 8 div 6) / real_of_int rate * 1000000 / 1000,
                packet_rate_hz = real_of_int rate / real_of_int ((m - 20) div 8 * 8 div 6),
                bytes_per_sample = 6,
                is_dsd = False\<rparr>)"
    using calculate_frame_params_floor [OF assms(1-4), of False]
    by (simp only: Let_def if_False spf_pcm_int audio_bytes_pcm_int)
  show "samples_per_frame p = (m - 20) div 8 * 8 div 6"
    using arg_cong [where f = "map_option (map_sum id samples_per_frame)", OF assms(5)] unfolding e by simp
  show "audio_bytes p = (m - 20) div 8 * 8 div 6 * 6"
    using arg_cong [where f = "map_option (map_sum id audio_bytes)", OF assms(5)] unfolding e by simp
  show "bytes_per_sample p = 6"
    using arg_cong [where f = "map_option (map_sum id bytes_per_sample)", OF assms(5)] unfolding e by simp
qed

text \<open>
  C4, as amended. For every MTU from 28 bytes up to \<open>2^53\<close>, every positive sample rate up
  to \<open>2^53\<close> and either encoding, the calculator has \<open>available_payload = mtu - 20\<close> and
  returns exactly the record of the stated formulas: \<open>bytes_per_sample\<close> 0.25 or 6,
  \<open>samples_per_frame\<close> the floor of the 8-aligned payload over \<open>bytes_per_sample\<close>,
  \<open>audio_bytes\<close> the floor of their product, the cycle time and packet rate as the two
  quotients, and \<open>total_frame_size\<close> the sum \<open>14 + 2 + audio_bytes + 4\<close> without the VLAN
  reservation.
\<close>

theorem frame_params_exact:
  assumes "28 \<le> m" and "m \<le> 2 ^ 53" and "0 < rate" and "rate \<le> 2 ^ 53"
  shows "available_payload (DirettaCalculator m) = m - 20 \<and>
    calculate_frame_params (DirettaCalculator m) rate dsd = Some
      (let bps = (if dsd then 0.25 else 6 :: real);
           spf = \<lfloor>real_of_int (\<lfloor>real_of_int (m - 20) / 8\<rfloor> * 8) / bps\<rfloor>;
           ab = \<lfloor>real_of_int spf * bps\<rfloor>
       in Inr \<lparr>sample_rate = rate,
                sample_rate_mhz = real_of_int rate / 1000000,
                samples_per_frame = spf,
                audio_bytes = ab,
                total_frame_size = 14 + 2 + ab + 4,
                cycle_time_us = real_of_int spf / real_of_int rate * 1000000,
                cycle_time_ms = real_of_int spf / real_of_int rate * 1000000 / 1000,
                packet_rate_hz = real_of_int rate / real_of_int spf,
                bytes_per_sample = bps,
                is_dsd = dsd\<rparr>)"
  using assms by (rule calculate_frame_params_floor)

text \<open>The default MTU of 9024 bytes at the DSD256 rate: 36000 samples in a 9020-byte frame.\<close>

theorem frame_params_exact_witness:
  "(28::int) \<le> 9024 \<and> (9024::int) \<le> 2 ^ 53 \<and> (0::int) < 12288000 \<and> (12288000::int) \<le> 2 ^ 53 \<and>
   map_option (map_sum id samples_per_frame)
     (calculate_frame_params (DirettaCalculator 9024) 12288000 True) = Some (Inr 36000) \<and>
   map_option (map_sum id total_frame_size)
     (calculate_frame_params (DirettaCalculator 9024) 12288000 True) = Some (Inr 9020)"
proof -
  have a: "(28::int) \<le> 9024" and b: "(9024::int) \<le> 2 ^ 53"
    and c: "(0::int) < 12288000" and d: "(12288000::int) \<le> 2 ^ 53" by simp_all
  show ?thesis using frame_params_exact [OF a b c d, of True] by (simp add: Let_def)
qed

text \<open>
  C4, as stated, fails on small positive MTUs. With an MTU of 24 bytes the payload is 4
  bytes, no sample fits, and the packet rate divides by zero: nothing is returned. With an
  MTU of 11 bytes the payload is negative and \<open>int\<close> truncates toward zero where the claim
  floors: 32 samples below zero, not 64.
\<close>

theorem frame_params_small_mtu:
  "calculate_frame_params (DirettaCalculator 24) 48000 True = Some (Inl ZeroDivisionError) \<and>
   map_option (map_sum id samples_per_frame)
     (calculate_frame_params (DirettaCalculator 11) 48000 True) = Some (Inr (- 32)) \<and>
   \<lfloor>real_of_int (\<lfloor>real_of_int (11 - 20) / 8\<rfloor> * 8) / (0.25 :: real)\<rfloor> = - 64"
  by (simp add: calculate_frame_params_def DirettaCalculator_def calc_consts py_int_def Let_def
      double_exact_def)

text \<open>
  C5, as amended. For every MTU from 28 bytes up to \<open>2^53\<close> and positive sample rate up to
  \<open>2^53\<close>, the returned \<open>audio_bytes\<close> is at most \<open>mtu - 20\<close> and equals
  \<open>samples_per_frame * bytes_per_sample\<close> exactly. In DSD mode it is the largest multiple
  of 8 that fits in \<open>mtu - 20\<close>. In PCM mode it is the largest multiple of 6 that fits in
  that 8-aligned budget.
\<close>

theorem audio_bytes_bound:
  assumes "28 \<le> m" and "m \<le> 2 ^ 53" and "0 < rate" and "rate \<le> 2 ^ 53"
    and "calculate_frame_params (DirettaCalculator m) rate dsd = Some (Inr p)"
  shows "audio_bytes p \<le> m - 20 \<and>
         real_of_int (audio_bytes p) = real_of_int (samples_per_frame p) * bytes_per_sample p \<and>
         (dsd \<longrightarrow> 8 dvd audio_bytes p \<and> m - 20 < audio_bytes p + 8) \<and>
         (\<not> dsd \<longrightarrow> 6 dvd audio_bytes p \<and> audio_bytes p \<le> (m - 20) div 8 * 8
                      \<and> (m - 20) div 8 * 8 < audio_bytes p + 6)"
proof (cases dsd)
  case True
  have c: "calculate_frame_params (DirettaCalculator m) rate True = Some (Inr p)"
    using assms(5) True by simp
  note f = frame_fields_dsd [OF assms(1-4) c]
  have "8 dvd audio_bytes p" "audio_bytes p \<le> m - 20" "m - 20 < audio_bytes p + 8"
    unfolding f(2) by presburger+
  moreover have "real_of_int (audio_bytes p) = real_of_int (samples_per_frame p) * bytes_per_sample p"
    unfolding f by simp
  ultimately show ?thesis using True by simp
next
  case False
  have c: "calculate_frame_params (DirettaCalculator m) rate False = Some (Inr p)"
    using assms(5) False by simp
  note f = frame_fields_pcm [OF assms(1-4) c]
  have "6 dvd audio_bytes p" "audio_bytes p \<le> m - 20" "audio_bytes p \<le> (m - 20) div 8 * 8"
     "(m - 20) div 8 * 8 < audio_bytes p + 6"
    unfolding f(2) by presburger+
  moreover have "real_of_int (audio_bytes p) = real_of_int (samples_per_frame p) * bytes_per_sample p"
    unfolding f by simp
  ultimately show ?thesis using False by simp
qed

text \<open>A standard 1500-byte MTU in PCM mode: 246 samples, 1476 bytes of audio.\<close>

theorem audio_bytes_bound_witness:
  "(28::int) \<le> 1500 \<and> (1500::int) \<le> 2 ^ 53 \<and> (0::int) < 384000 \<and> (384000::int) \<le> 2 ^ 53 \<and>
   calculate_frame_params (DirettaCalculator 1500) 384000 False = Some
    (Inr \<lparr>sample_rate = 384000, sample_rate_mhz = 384000 / 1000000, samples_per_frame = 246,
          audio_bytes = 1476, total_frame_size = 1496, cycle_time_us = 246 / 384000 * 1000000,
          cycle_time_ms = 246 / 384000 * 1000000 / 1000, packet_rate_hz = 384000 / 246,
          bytes_per_sample = 6, is_dsd = False\<rparr>) \<and>
   (1476::int) \<le> 1500 - 20 \<and> (6::int) dvd 1476 \<and> (1500 - 20) div 8 * 8 < (1476::int) + 6"
proof -
  have a: "(28::int) \<le> 1500" and b: "(1500::int) \<le> 2 ^ 53"
    and c: "(0::int) < 384000" and d: "(384000::int) \<le> 2 ^ 53" by simp_all
  have e: "calculate_frame_params (DirettaCalculator 1500) 384000 False = Some
    (Inr \<lparr>sample_rate = 384000, sample_rate_mhz = 384000 / 1000000, samples_per_frame = 246,
          audio_bytes = 1476, total_frame_size = 1496, cycle_time_us = 246 / 384000 * 1000000,
          cycle_time_ms = 246 / 384000 * 1000000 / 1000, packet_rate_hz = 384000 / 246,
          bytes_per_sample = 6, is_dsd = False\<rparr>)"
    by (simp add: calculate_frame_params_def DirettaCalculator_def calc_consts py_int_def Let_def
        double_exact_def)
  show ?thesis using audio_bytes_bound [OF a b c d e] e by simp
qed

text \<open>
  C5, as stated, fails in PCM mode: with an MTU of 1500 bytes the audio takes 1476 bytes,
  which is not a multiple of 8, while the largest multiple of 8 within the 1480 bytes of
  payload is 1480.
\<close>

theorem audio_bytes_not_aligned:
  "map_option (map_sum id audio_bytes)
     (calculate_frame_params (DirettaCalculator 1500) 384000 False) = Some (Inr 1476)
   \<and> \<not> (8::int) dvd 1476 \<and> (1500 - 20) div 8 * 8 = (1480::int)"
  by (simp add: calculate_frame_params_def DirettaCalculator_def calc_consts py_int_def Let_def
      double_exact_def)

section \<open>Grades\<close>

lemma jitter_quality_antimono: "p \<le> q \<Longrightarrow> grade_rank (jitter_quality q) \<le> grade_rank (jitter_quality p)"
  by (simp add: jitter_quality_def)

lemma jitter_quality_table: "jitter_quality p = first_match spec_jitter_table p"
  by (simp add: jitter_quality_def spec_jitter_table_def)

lemma buffer_quality_table: "buffer_quality i m = first_match spec_buffer_table (i, m)"
  by (simp add: buffer_quality_def spec_buffer_table_def)

lemma map_filter_append: "List.map_filter f (xs @ ys) = List.map_filter f xs @ List.map_filter f ys"
  by (simp add: List.map_filter_def)

lemma jitter_grades_append: "jitter_grades (a @ b) = jitter_grades a @ jitter_grades b"
  by (simp add: jitter_grades_def map_filter_append)

lemma buffer_grades_append: "buffer_grades (a @ b) = buffer_grades a @ buffer_grades b"
  by (simp add: buffer_grades_def map_filter_append)

lemma jitter_grades_section:
  "ct \<noteq> 0 \<Longrightarrow> jitter_grades (jitter_section (Some ct) cts) =
      [jitter_quality (iqr (analyze_stability cts ''Cycle Time'') / ct * 100)]"
  by (simp add: jitter_grades_def jitter_section_def Let_def List.map_filter_simps)

lemma jitter_grades_section_unset:
  "\<not> truthy r \<Longrightarrow> jitter_grades (jitter_section r cts) = []"
  by (cases r) (simp_all add: jitter_grades_def jitter_section_def Let_def List.map_filter_simps)

lemma buffer_grades_section:
  "buffer_grades (buffer_section c d) =
      [buffer_quality (iqr (analyze_stability c ''Correction Values'')) \<bar>mean (analyze_stability c ''Correction Values'')\<bar>]"
  by (simp add: buffer_grades_def buffer_section_def Let_def List.map_filter_simps)

lemma buffer_grades_jitter_section: "buffer_grades (jitter_section r cts) = []"
  by (cases r) (simp_all add: buffer_grades_def jitter_section_def Let_def List.map_filter_simps)

lemma insufficient_not_in_jitter_section: "Insufficient_Data n \<notin> set (jitter_section r cts)"
  by (cases r) (simp_all add: jitter_section_def Let_def)

lemma insufficient_not_in_buffer_section: "Insufficient_Data n \<notin> set (buffer_section c d)"
  by (simp add: buffer_section_def Let_def)

lemma buffer_grades_body:
  "buffer_grades (fst (report_body self parsed_data)) =
     (if 10 \<le> length (item_of parsed_data ''correction'')
      then [buffer_quality (iqr (analyze_stability (item_of parsed_data ''correction'') ''Correction Values''))
              \<bar>mean (analyze_stability (item_of parsed_data ''correction'') ''Correction Values'')\<bar>]
      else [])"
proof -
  have ne: "10 \<le> length (item_of parsed_data ''correction'') \<Longrightarrow> item_of parsed_data ''correction'' \<noteq> []"
    by auto
  have simple: "buffer_grades (l # r) = (case l of Buffer_Assessment g \<Rightarrow> [g] | _ \<Rightarrow> []) @ buffer_grades r"
    "buffer_grades [] = []" for l r
    by (cases l; simp add: buffer_grades_def List.map_filter_simps)+
  show ?thesis
    using ne
    by (simp add: report_body_def Let_def buffer_grades_append buffer_grades_section
        buffer_grades_jitter_section simple)
qed

lemma insufficient_in_body:
  "Insufficient_Data n \<in> set (fst (report_body self parsed_data)) \<longleftrightarrow>
     (length (item_of parsed_data ''correction'') < 10 \<and> n = length (item_of parsed_data ''correction''))"
proof -
  have ne: "10 \<le> length (item_of parsed_data ''correction'') \<Longrightarrow> item_of parsed_data ''correction'' \<noteq> []"
    by auto
  show ?thesis
    using ne
    by (auto simp add: report_body_def Let_def insufficient_not_in_jitter_section
        insufficient_not_in_buffer_section)
qed

text \<open>
  C3. In the timing section of a report the grade is \<open>jitter_quality\<close> of
  \<open>iqr / reference * 100\<close> and of nothing else; \<open>jitter_quality\<close> is the specification's
  ascending threshold table (below 0.1 Exceptional, below 0.5 Excellent, below 1.0 Very
  Good, below 2.0 Good, below 5.0 Fair, else Poor); and a smaller percentage never gets a
  lower grade.
\<close>

theorem jitter_grade_by_thresholds:
  "(ct \<noteq> 0 \<longrightarrow>
      jitter_grades (jitter_section (Some ct) cycle_times) =
        [jitter_quality (iqr (analyze_stability cycle_times ''Cycle Time'') / ct * 100)])
   \<and> jitter_quality p = first_match spec_jitter_table p
   \<and> (p \<le> q \<longrightarrow> grade_rank (jitter_quality q) \<le> grade_rank (jitter_quality p))"
  by (simp add: jitter_grades_section jitter_quality_table [symmetric] jitter_quality_antimono)

text \<open>
  Five cycle times around a reference of 1920 microseconds have an interquartile range of
  one microsecond, 0.052 percent: Exceptional. And 0.05 percent ranks above 6.5 percent.
\<close>

theorem jitter_grade_by_thresholds_witness:
  "(1920::real) \<noteq> 0
   \<and> jitter_grades (jitter_section (Some 1920) [1918.0, 1920.0, 1921.0, 1919.5, 1920.5]) = [Exceptional]
   \<and> (0.05::real) \<le> 6.5
   \<and> jitter_quality 0.05 = Exceptional \<and> jitter_quality 6.5 = Poor
   \<and> grade_rank (jitter_quality 6.5) \<le> grade_rank (jitter_quality 0.05)"
  using jitter_grade_by_thresholds [of 1920 "[1918.0, 1920.0, 1921.0, 1919.5, 1920.5]" "0.05" "6.5"]
  by (simp add: analyze_stability_def np_percentile_def Let_def jitter_quality_def)

text \<open>
  C6. The report states a buffer grade only from ten correction values on: below ten it
  has the line of insufficient data and no grade; from ten on it has no such line and its
  one grade is \<open>buffer_quality\<close> of the interquartile range and the absolute mean, which is
  the specification's joint table. Twelve values with mean 0.002 and interquartile range
  0.0008 are graded Exceptional.
\<close>

theorem buffer_grade_needs_ten_samples:
  "(let correction = item_of parsed_data ''correction'';
        st = analyze_stability correction ''Correction Values'';
        report = fst (report_body self parsed_data)
    in (length correction < 10 \<longrightarrow>
          buffer_grades report = [] \<and> Insufficient_Data (length correction) \<in> set report)
       \<and> (10 \<le> length correction \<longrightarrow>
            buffer_grades report = [buffer_quality (iqr st) \<bar>mean st\<bar>]
            \<and> Insufficient_Data n \<notin> set report)
       \<and> (length correction = 12 \<and> mean st = 0.002 \<and> iqr st = 0.0008 \<longrightarrow>
            buffer_grades report = [Exceptional]))
   \<and> buffer_quality i m = first_match spec_buffer_table (i, m)"
  by (simp add: Let_def buffer_grades_body insufficient_in_body buffer_quality_table [symmetric])
     (simp add: buffer_quality_def)

text \<open>
  Twelve correction values with mean 0.002 and interquartile range 0.0008, and the first
  eight of them.
\<close>

theorem buffer_grade_needs_ten_samples_witness:
  "(let twelve = [0.0020, 0.0010, 0.0030, 0.0016, 0.0024, 0.0014, 0.0026, 0.0016, 0.0024,
                  0.0018, 0.0022, 0.0020 :: real];
        self = \<lparr>self_service_name = ''diretta_sync_host'', self_cycle_time_us = Some 1920\<rparr>;
        data = (\<lambda>c. [(''buffer_diff'', []), (''buffer_avg'', []), (''correction'', c),
                     (''cycle_times'', [])])
    in length twelve = 12
       \<and> mean (analyze_stability twelve ''Correction Values'') = 0.002
       \<and> iqr (analyze_stability twelve ''Correction Values'') = 0.0008
       \<and> buffer_grades (fst (report_body self (data twelve))) = [Exceptional]
       \<and> length (take 8 twelve) < 10
       \<and> buffer_grades (fst (report_body self (data (take 8 twelve)))) = []
       \<and> Insufficient_Data 8 \<in> set (fst (report_body self (data (take 8 twelve)))))"
  using buffer_grade_needs_ten_samples
      [of "[(''buffer_diff'', []), (''buffer_avg'', []),
            (''correction'', [0.0020, 0.0010, 0.0030, 0.0016, 0.0024, 0.0014, 0.0026, 0.0016,
                             0.0024, 0.0018, 0.0022, 0.0020]),
            (''cycle_times'', [])]"
          "\<lparr>self_service_name = ''diretta_sync_host'', self_cycle_time_us = Some 1920\<rparr>"
          8 "0.0008" "0.002"]
    buffer_grade_needs_ten_samples
      [of "[(''buffer_diff'', []), (''buffer_avg'', []),
            (''correction'', [0.0020, 0.0010, 0.0030, 0.0016, 0.0024, 0.0014, 0.0026, 0.0016]),
            (''cycle_times'', [])]"
          "\<lparr>self_service_name = ''diretta_sync_host'', self_cycle_time_us = Some 1920\<rparr>"
          8 "0.0008" "0.002"]
  by (simp add: Let_def item_of_def analyze_stability_def np_percentile_def np_mean_def
      insufficient_in_body buffer_grades_body buffer_quality_def)

section \<open>Runs on concrete journals\<close>

lemmas float_defs = py_float_def strip_sign_def is_digit_def nat_of_digits_def digit_val_def

lemma float_examples:
  "py_float ''-0.0110'' = Some (-0.011)"
  "py_float ''0.0019'' = Some 0.0019"
  "py_float ''3185960450'' = Some 3185960450"
  "py_float ''0'' = Some 0"
  by (simp_all add: float_defs)

lemma convert_example:
  "convert_match [''-0.0110'', ''-0.0110'', ''0.0019'', ''3185960450''] =
     Some (-0.011, -0.011, 0.0019, 3185.96045)"
  by (simp add: convert_match_def float_examples)

lemma parse_from_matches:
  "finditer pattern logs = ms \<Longrightarrow>
   parse_diretta_logs logs =
     [(''buffer_diff'', map (\<lambda>(d, a, c, y). d) (List.map_filter convert_match ms)),
      (''buffer_avg'', map (\<lambda>(d, a, c, y). a) (List.map_filter convert_match ms)),
      (''correction'', map (\<lambda>(d, a, c, y). c) (List.map_filter convert_match ms)),
      (''cycle_times'', map (\<lambda>(d, a, c, y). y) (List.map_filter convert_match ms))]"
  by (simp add: parse_diretta_logs_def Let_def)

lemma parse_one_line:
  "parse_diretta_logs (''info rcv 2 -0.0110 -0.0110 0.0019 cy=3185960450'' @ [CHR 0x0A]) =
     [(''buffer_diff'', [-0.011]), (''buffer_avg'', [-0.011]), (''correction'', [0.0019]),
      (''cycle_times'', [3185.96045])]"
proof -
  have "finditer pattern (''info rcv 2 -0.0110 -0.0110 0.0019 cy=3185960450'' @ [CHR 0x0A]) =
          [[''-0.0110'', ''-0.0110'', ''0.0019'', ''3185960450'']]"
    by code_simp
  from parse_from_matches [OF this] show ?thesis
    by (simp add: List.map_filter_simps convert_example)
qed

lemma parse_no_entries:
  "parse_diretta_logs (''-- No entries --'' @ [CHR 0x0A]) =
     [(''buffer_diff'', []), (''buffer_avg'', []), (''correction'', []), (''cycle_times'', [])]"
proof -
  have "finditer pattern (''-- No entries --'' @ [CHR 0x0A]) = []"
    by code_simp
  from parse_from_matches [OF this] show ?thesis
    by (simp add: List.map_filter_simps)
qed

lemma parse_never_empty: "parse_diretta_logs logs \<noteq> []"
  by (simp add: parse_diretta_logs_def Let_def)

lemma could_not_parse_not_in_head: "Could_Not_Parse \<notin> set (report_head s n t r)"
  by (auto simp add: report_head_def interpretation_guide_def split: option.splits)

lemma could_not_parse_not_in_sections:
  "Could_Not_Parse \<notin> set (jitter_section r c)" "Could_Not_Parse \<notin> set (buffer_section k d)"
  by (cases r) (simp_all add: jitter_section_def buffer_section_def Let_def)

lemma could_not_parse_not_in_body: "Could_Not_Parse \<notin> set (fst (report_body self pd))"
  by (simp add: report_body_def Let_def could_not_parse_not_in_sections)

text \<open>
  C2. The claim is not met by the code. The test \<open>if not parsed_data\<close> is made on a
  dictionary that always has four keys, so it never holds: no run reports the unparseable
  outcome. When the journal has text and no line matches, as with the single line
  \<open>-- No entries --\<close>, the report goes on to the count of zero parsed entries and the
  two sections, each saying that it has no data.
\<close>

theorem unparseable_logs_not_reported:
  "Could_Not_Parse \<notin> set (fst (analyze_recent_logs self n now paths logs))
   \<and> fst (analyze_recent_logs
            \<lparr>self_service_name = ''diretta_sync_host'', self_cycle_time_us = None\<rparr>
            1000 ''2026-01-01 00:00:00'' [] (''-- No entries --'' @ [CHR 0x0A])) =
       report_head ''diretta_sync_host'' 1000 ''2026-01-01 00:00:00'' None
       @ [Logs_Captured, Blank, Parsed_Entries 0, Blank, No_Cy_Data, Blank,
          Insufficient_Data 0, Footer]"
proof
  show "Could_Not_Parse \<notin> set (fst (analyze_recent_logs self n now paths logs))"
    by (simp add: analyze_recent_logs_def Let_def parse_never_empty could_not_parse_not_in_head
        could_not_parse_not_in_body)
  show "fst (analyze_recent_logs
            \<lparr>self_service_name = ''diretta_sync_host'', self_cycle_time_us = None\<rparr>
            1000 ''2026-01-01 00:00:00'' [] (''-- No entries --'' @ [CHR 0x0A])) =
       report_head ''diretta_sync_host'' 1000 ''2026-01-01 00:00:00'' None
       @ [Logs_Captured, Blank, Parsed_Entries 0, Blank, No_Cy_Data, Blank,
          Insufficient_Data 0, Footer]"
    unfolding analyze_recent_logs_def parse_no_entries
    by (simp add: Let_def report_body_def item_of_def)
qed

text \<open>
  C1. The claim is not met by the code. One cycle-time value gives the zero record with
  count 1; the reference is then taken from that one value, so the interquartile range of
  zero is zero percent of it, and the timing section states the grade Exceptional for one
  sample. (The correction section of the same report says that it has too little data.)
\<close>

theorem single_sample_graded_exceptional:
  "analyze_stability [3185.96045] ''Cycle Time'' =
     \<lparr>count = 1, mean = 0, stdev = 0, min_val = 0, max_val = 0, range_val = 0,
      q1 = 0, q3 = 0, iqr = 0\<rparr>
   \<and> fst (analyze_recent_logs
            \<lparr>self_service_name = ''diretta_sync_host'', self_cycle_time_us = None\<rparr>
            1000 ''2026-01-01 00:00:00'' []
            (''info rcv 2 -0.0110 -0.0110 0.0019 cy=3185960450'' @ [CHR 0x0A])) =
       report_head ''diretta_sync_host'' 1000 ''2026-01-01 00:00:00'' None
       @ [Logs_Captured, Blank, Parsed_Entries 1, Blank,
          Detected_Cycle_Time 3185.96045, Blank,
          Jitter_Header, Rule_Dash, Jitter_Assessment Exceptional, Samples_Found 1,
          Expected_Cycle_Time 3185.96045, Measured_Average 0 (- 3185.96045), Blank,
          Percentage_Header, Standard_Deviation_Pct 0 0, Interquartile_Range_Pct 0 0,
          Peak_To_Peak_Pct 0 0, Blank, Absolute_Header, Min_Max_Cycle 0 0, Rule_Dash,
          Blank, Insufficient_Data 1, Footer]"
proof
  show "analyze_stability [3185.96045] ''Cycle Time'' =
     \<lparr>count = 1, mean = 0, stdev = 0, min_val = 0, max_val = 0, range_val = 0,
      q1 = 0, q3 = 0, iqr = 0\<rparr>"
    by (simp add: analyze_stability_def)
  show "fst (analyze_recent_logs
            \<lparr>self_service_name = ''diretta_sync_host'', self_cycle_time_us = None\<rparr>
            1000 ''2026-01-01 00:00:00'' []
            (''info rcv 2 -0.0110 -0.0110 0.0019 cy=3185960450'' @ [CHR 0x0A])) =
       report_head ''diretta_sync_host'' 1000 ''2026-01-01 00:00:00'' None
       @ [Logs_Captured, Blank, Parsed_Entries 1, Blank,
          Detected_Cycle_Time 3185.96045, Blank,
          Jitter_Header, Rule_Dash, Jitter_Assessment Exceptional, Samples_Found 1,
          Expected_Cycle_Time 3185.96045, Measured_Average 0 (- 3185.96045), Blank,
          Percentage_Header, Standard_Deviation_Pct 0 0, Interquartile_Range_Pct 0 0,
          Peak_To_Peak_Pct 0 0, Blank, Absolute_Header, Min_Max_Cycle 0 0, Rule_Dash,
          Blank, Insufficient_Data 1, Footer]"
    unfolding analyze_recent_logs_def parse_one_line
    by (simp add: Let_def report_body_def item_of_def np_mean_def jitter_section_def
        analyze_stability_def jitter_quality_def)
qed

lemma parse_first_half:
  "parse_diretta_logs ''info rcv 2 -0.0110 -0.0110'' =
     [(''buffer_diff'', []), (''buffer_avg'', []), (''correction'', []), (''cycle_times'', [])]"
proof -
  have "finditer pattern ''info rcv 2 -0.0110 -0.0110'' = []"
    by code_simp
  from parse_from_matches [OF this] show ?thesis
    by (simp add: List.map_filter_simps)
qed

lemma parse_second_half:
  "parse_diretta_logs ''0.0019 cy=3185960450'' =
     [(''buffer_diff'', []), (''buffer_avg'', []), (''correction'', []), (''cycle_times'', [])]"
proof -
  have "finditer pattern ''0.0019 cy=3185960450'' = []"
    by code_simp
  from parse_from_matches [OF this] show ?thesis
    by (simp add: List.map_filter_simps)
qed

lemma parse_both_halves:
  "parse_diretta_logs (''info rcv 2 -0.0110 -0.0110'' @ [CHR 0x0A] @ ''0.0019 cy=3185960450'') =
     [(''buffer_diff'', [-0.011]), (''buffer_avg'', [-0.011]), (''correction'', [0.0019]),
      (''cycle_times'', [3185.96045])]"
proof -
  have "finditer pattern (''info rcv 2 -0.0110 -0.0110'' @ [CHR 0x0A] @ ''0.0019 cy=3185960450'') =
          [[''-0.0110'', ''-0.0110'', ''0.0019'', ''3185960450'']]"
    by code_simp
  from parse_from_matches [OF this] show ?thesis
    by (simp add: List.map_filter_simps convert_example)
qed

text \<open>
  C10. The pattern is matched against the whole text. Its six separators are all \<open>\s+\<close>,
  which also takes a line feed, so a record broken after its second number is still found:
  neither line has a match of its own, and the two lines together give one sample.
\<close>

theorem match_spans_two_lines:
  "length (filter (\<lambda>i. i = Plus Space) pattern) = 6
   \<and> atom_ok Space (CHR 0x0A)
   \<and> CHR 0x0A \<notin> set ''info rcv 2 -0.0110 -0.0110''
   \<and> CHR 0x0A \<notin> set ''0.0019 cy=3185960450''
   \<and> parse_diretta_logs ''info rcv 2 -0.0110 -0.0110'' =
       [(''buffer_diff'', []), (''buffer_avg'', []), (''correction'', []), (''cycle_times'', [])]
   \<and> parse_diretta_logs ''0.0019 cy=3185960450'' =
       [(''buffer_diff'', []), (''buffer_avg'', []), (''correction'', []), (''cycle_times'', [])]
   \<and> parse_diretta_logs (''info rcv 2 -0.0110 -0.0110'' @ [CHR 0x0A] @ ''0.0019 cy=3185960450'') =
       [(''buffer_diff'', [-0.011]), (''buffer_avg'', [-0.011]), (''correction'', [0.0019]),
        (''cycle_times'', [3185.96045])]"
  unfolding parse_first_half parse_second_half parse_both_halves
  by (simp add: pattern_def lit_def decimal_group_def number_group_def is_space_def)

lemma detect_zero: "detect_cycle_time [None, Some (''[global]'' @ [CHR 0x0A] @ ''CycleTime=0'' @ [CHR 0x0A])] = Some 0"
proof -
  have "re_search cycle_time_pattern (''[global]'' @ [CHR 0x0A] @ ''CycleTime=0'' @ [CHR 0x0A]) = Some [''0'']"
    by code_simp
  then show ?thesis by (simp add: float_examples)
qed

lemma detect_two_thousand: "detect_cycle_time [None, Some ''CycleTime=2000''] = Some 2000"
proof -
  have "re_search cycle_time_pattern ''CycleTime=2000'' = Some [''2000'']"
    by code_simp
  then show ?thesis by (simp add: float_defs)
qed

lemma resolved_cycle_time:
  "self_cycle_time_us (snd (analyze_recent_logs self n now paths logs)) =
     (let configured = (case self_cycle_time_us self of
                          None \<Rightarrow> detect_cycle_time paths
                        | Some e \<Rightarrow> Some e);
          cycle_times = item_of (parse_diretta_logs logs) ''cycle_times''
      in if \<not> truthy configured \<and> logs \<noteq> [] \<and> cycle_times \<noteq> []
         then Some (np_mean cycle_times)
         else configured)"
  by (cases "self_cycle_time_us self")
     (simp_all add: analyze_recent_logs_def Let_def report_body_def parse_never_empty)

lemma run_keeps_service:
  "self_service_name (snd (analyze_recent_logs self n now paths logs)) = self_service_name self"
  by (simp add: analyze_recent_logs_def Let_def report_body_def parse_never_empty)

text \<open>
  C7, as stated, fails when the configuration file assigns zero: the value is read, but the
  tests that follow take zero for no value, and the reference is inferred from the log data.
\<close>

theorem configured_zero_not_used:
  "detect_cycle_time [None, Some (''[global]'' @ [CHR 0x0A] @ ''CycleTime=0'' @ [CHR 0x0A])] = Some 0
   \<and> self_cycle_time_us (snd (analyze_recent_logs
        (DirettaMonitor ''diretta_sync_host'' None)
        1000 ''2026-01-01 00:00:00''
        [None, Some (''[global]'' @ [CHR 0x0A] @ ''CycleTime=0'' @ [CHR 0x0A])]
        (''info rcv 2 -0.0110 -0.0110 0.0019 cy=3185960450'' @ [CHR 0x0A]))) = Some 3185.96045"
  unfolding resolved_cycle_time parse_one_line detect_zero
  by (simp add: Let_def item_of_def np_mean_def DirettaMonitor_def)

text \<open>
  C7, as amended, for a run on a newly made object. An explicit cycle time other than zero
  is used unchanged. When no explicit value is given, a value other than zero read from the
  configuration files is used. When no explicit value is given and the files give no value
  other than zero, the reference is the mean of the extracted cycle times if the journal had
  text and cycle times were extracted, and stays as the files left it (not set, or zero)
  otherwise. Nothing is said of an explicit zero, for which the program does not read the
  files.
\<close>

theorem reference_cycle_time_precedence:
  "(let cycle_times = item_of (parse_diretta_logs logs) ''cycle_times'';
        configured = detect_cycle_time paths;
        resolved = (\<lambda>explicit. self_cycle_time_us
                      (snd (analyze_recent_logs (DirettaMonitor service explicit) n now paths logs)))
    in (e \<noteq> 0 \<longrightarrow> resolved (Some e) = Some e)
       \<and> (configured = Some c \<and> c \<noteq> 0 \<longrightarrow> resolved None = Some c)
       \<and> (\<not> truthy configured \<and> logs \<noteq> [] \<and> cycle_times \<noteq> []
            \<longrightarrow> resolved None = Some (np_mean cycle_times))
       \<and> (\<not> truthy configured \<and> (logs = [] \<or> cycle_times = []) \<longrightarrow> resolved None = configured))"
  unfolding resolved_cycle_time by (auto simp add: Let_def DirettaMonitor_def)

text \<open>
  An explicit 1920 microseconds; no explicit value and a file that assigns 2000; and
  neither, with one record in the journal.
\<close>

theorem reference_cycle_time_precedence_witness:
  "self_cycle_time_us (snd (analyze_recent_logs
      (DirettaMonitor ''diretta_sync_host'' (Some 1920))
      1000 ''2026-01-01 00:00:00'' [None, Some ''CycleTime=2000'']
      (''info rcv 2 -0.0110 -0.0110 0.0019 cy=3185960450'' @ [CHR 0x0A]))) = Some 1920
   \<and> detect_cycle_time [None, Some ''CycleTime=2000''] = Some 2000
   \<and> self_cycle_time_us (snd (analyze_recent_logs
      (DirettaMonitor ''diretta_sync_host'' None)
      1000 ''2026-01-01 00:00:00'' [None, Some ''CycleTime=2000'']
      (''info rcv 2 -0.0110 -0.0110 0.0019 cy=3185960450'' @ [CHR 0x0A]))) = Some 2000
   \<and> detect_cycle_time [None, None] = None
   \<and> self_cycle_time_us (snd (analyze_recent_logs
      (DirettaMonitor ''diretta_sync_host'' None)
      1000 ''2026-01-01 00:00:00'' [None, None]
      (''info rcv 2 -0.0110 -0.0110 0.0019 cy=3185960450'' @ [CHR 0x0A]))) = Some 3185.96045"
  using
    reference_cycle_time_precedence
      [where service = "''diretta_sync_host''"
          and paths = "[None, Some ''CycleTime=2000'']"
          and logs = "''info rcv 2 -0.0110 -0.0110 0.0019 cy=3185960450'' @ [CHR 0x0A]"
          and n = 1000 and now = "''2026-01-01 00:00:00''" and e = 1920 and c = 2000]
    reference_cycle_time_precedence
      [where service = "''diretta_sync_host''"
          and paths = "[None, None]"
          and logs = "''info rcv 2 -0.0110 -0.0110 0.0019 cy=3185960450'' @ [CHR 0x0A]"
          and n = 1000 and now = "''2026-01-01 00:00:00''" and e = 1920 and c = 2000]
  unfolding parse_one_line detect_two_thousand
  by (simp add: Let_def item_of_def np_mean_def)

lemma head_without_time:
  "map without_time (report_head s n now r) = map without_time (report_head s n now' r)"
  by (simp add: report_head_def without_time_def)

lemma run_without_time:
  "map without_time (fst (analyze_recent_logs self n now paths logs)) =
     map without_time (fst (analyze_recent_logs self n now' paths logs))"
  by (simp add: analyze_recent_logs_def Let_def head_without_time [of _ _ now _ now'])

lemma run_state_repeats:
  "snd (analyze_recent_logs (snd (analyze_recent_logs self n now paths logs)) n now' paths logs) =
     snd (analyze_recent_logs self n now paths logs)"
proof (rule monitor.equality)
  show "self_service_name
          (snd (analyze_recent_logs (snd (analyze_recent_logs self n now paths logs)) n now' paths logs)) =
        self_service_name (snd (analyze_recent_logs self n now paths logs))"
    by (simp only: run_keeps_service)
  show "self_cycle_time_us
          (snd (analyze_recent_logs (snd (analyze_recent_logs self n now paths logs)) n now' paths logs)) =
        self_cycle_time_us (snd (analyze_recent_logs self n now paths logs))"
    by (cases "self_cycle_time_us self"; cases "detect_cycle_time paths")
       (simp_all add: resolved_cycle_time Let_def)
  show "monitor.more
          (snd (analyze_recent_logs (snd (analyze_recent_logs self n now paths logs)) n now' paths logs)) =
        monitor.more (snd (analyze_recent_logs self n now paths logs))"
    by simp
qed

lemma run_keeps_given_state:
  "truthy (self_cycle_time_us self) \<Longrightarrow> snd (analyze_recent_logs self n now paths logs) = self"
  by (cases "self_cycle_time_us self")
     (simp_all add: analyze_recent_logs_def Let_def report_body_def parse_never_empty)

lemma jitter_grades_simps:
  "jitter_grades [] = []"
  "jitter_grades (l # r) = (case l of Jitter_Assessment g \<Rightarrow> [g] | _ \<Rightarrow> []) @ jitter_grades r"
  by (cases l; simp add: jitter_grades_def List.map_filter_simps)+

lemma buffer_grades_simps:
  "buffer_grades [] = []"
  "buffer_grades (l # r) = (case l of Buffer_Assessment g \<Rightarrow> [g] | _ \<Rightarrow> []) @ buffer_grades r"
  by (cases l; simp add: buffer_grades_def List.map_filter_simps)+

lemma grades_of_head:
  "jitter_grades (report_head s n now r) = []" "buffer_grades (report_head s n now r) = []"
  by (simp_all add: report_head_def interpretation_guide_def jitter_grades_def buffer_grades_def
      List.map_filter_def split: option.splits)

lemma jitter_grades_buffer_section: "jitter_grades (buffer_section c d) = []"
  by (simp add: jitter_grades_def buffer_section_def Let_def List.map_filter_simps)

lemma jitter_grades_run:
  "jitter_grades (fst (analyze_recent_logs self n now paths logs)) =
     (if logs \<noteq> [] \<and> item_of (parse_diretta_logs logs) ''cycle_times'' \<noteq> []
      then jitter_grades
             (jitter_section (self_cycle_time_us (snd (analyze_recent_logs self n now paths logs)))
                (item_of (parse_diretta_logs logs) ''cycle_times''))
      else [])"
  by (simp add: analyze_recent_logs_def Let_def report_body_def parse_never_empty
      jitter_grades_append jitter_grades_simps grades_of_head jitter_grades_buffer_section)

lemma buffer_grades_run:
  "buffer_grades (fst (analyze_recent_logs self n now paths logs)) =
     (if logs \<noteq> [] \<and> 10 \<le> length (item_of (parse_diretta_logs logs) ''correction'')
      then buffer_grades
             (buffer_section (item_of (parse_diretta_logs logs) ''correction'')
                (item_of (parse_diretta_logs logs) ''buffer_diff''))
      else [])"
proof -
  have ne: "10 \<le> length xs \<Longrightarrow> xs \<noteq> []" for xs :: "real list" by auto
  show ?thesis
    using ne [of "item_of (parse_diretta_logs logs) ''correction''"]
    by (simp add: analyze_recent_logs_def Let_def report_body_def parse_never_empty
        buffer_grades_append buffer_grades_simps grades_of_head buffer_grades_jitter_section)
qed

text \<open>
  C9, as stated, fails twice over. The report carries the time of the run, so two runs on
  the same service, count, cycle time and journal text differ when the clock has moved on.
  And a run stores the cycle time it resolved in the object: a second run on the same
  object, with the same journal text, no longer says that the cycle time will be detected
  from the logs, and differs from the first beyond the time of the run.
\<close>

theorem reports_differ_with_time_and_reuse:
  "fst (analyze_recent_logs (DirettaMonitor ''diretta_sync_host'' (Some 1920))
          1000 ''2026-01-01 00:00:00'' [] [])
   \<noteq> fst (analyze_recent_logs (DirettaMonitor ''diretta_sync_host'' (Some 1920))
          1000 ''2026-01-01 00:00:01'' [] [])
   \<and> map without_time
        (fst (analyze_recent_logs
               (snd (analyze_recent_logs (DirettaMonitor ''diretta_sync_host'' None)
                      1000 ''2026-01-01 00:00:00'' []
                      (''info rcv 2 -0.0110 -0.0110 0.0019 cy=3185960450'' @ [CHR 0x0A])))
               1000 ''2026-01-01 00:00:01'' []
               (''info rcv 2 -0.0110 -0.0110 0.0019 cy=3185960450'' @ [CHR 0x0A])))
     \<noteq> map without_time
        (fst (analyze_recent_logs (DirettaMonitor ''diretta_sync_host'' None)
               1000 ''2026-01-01 00:00:00'' []
               (''info rcv 2 -0.0110 -0.0110 0.0019 cy=3185960450'' @ [CHR 0x0A])))"
proof
  show "fst (analyze_recent_logs (DirettaMonitor ''diretta_sync_host'' (Some 1920))
          1000 ''2026-01-01 00:00:00'' [] [])
   \<noteq> fst (analyze_recent_logs (DirettaMonitor ''diretta_sync_host'' (Some 1920))
          1000 ''2026-01-01 00:00:01'' [] [])"
    by (simp add: analyze_recent_logs_def report_head_def Let_def DirettaMonitor_def)
  show "map without_time
        (fst (analyze_recent_logs
               (snd (analyze_recent_logs (DirettaMonitor ''diretta_sync_host'' None)
                      1000 ''2026-01-01 00:00:00'' []
                      (''info rcv 2 -0.0110 -0.0110 0.0019 cy=3185960450'' @ [CHR 0x0A])))
               1000 ''2026-01-01 00:00:01'' []
               (''info rcv 2 -0.0110 -0.0110 0.0019 cy=3185960450'' @ [CHR 0x0A])))
     \<noteq> map without_time
        (fst (analyze_recent_logs (DirettaMonitor ''diretta_sync_host'' None)
               1000 ''2026-01-01 00:00:00'' []
               (''info rcv 2 -0.0110 -0.0110 0.0019 cy=3185960450'' @ [CHR 0x0A])))"
    unfolding analyze_recent_logs_def parse_one_line
    by (simp add: Let_def report_body_def item_of_def np_mean_def report_head_def
        DirettaMonitor_def without_time_def)
qed

text \<open>
  C9, as amended. A run is a function of the state of the object when it starts (the
  service, and the cycle time given explicitly or left by an earlier run), the count, the
  configuration files, the journal text and the time of the run. Two runs from the same
  state that agree on all of these but the time give reports that are equal line by line
  once the time of the run is blanked. A second run on the same object, on the same files
  and journal text, leaves the object as the first run left it and states the same grades;
  and when the first run started with a cycle time other than zero, it left the object as
  it was and the second report is the first but for the time of the run.
\<close>

theorem repeated_run:
  "(let first = analyze_recent_logs self n now paths logs;
        second = analyze_recent_logs (snd first) n now' paths logs
    in snd second = snd first
       \<and> jitter_grades (fst second) = jitter_grades (fst first)
       \<and> buffer_grades (fst second) = buffer_grades (fst first)
       \<and> (truthy (self_cycle_time_us self) \<longrightarrow>
            snd first = self \<and> map without_time (fst second) = map without_time (fst first)))
   \<and> map without_time (fst (analyze_recent_logs self n now paths logs)) =
       map without_time (fst (analyze_recent_logs self n now' paths logs))"
proof -
  have a: "map without_time (fst (analyze_recent_logs self n now paths logs)) =
           map without_time (fst (analyze_recent_logs self n now' paths logs))"
    by (rule run_without_time)
  have b: "truthy (self_cycle_time_us self) \<longrightarrow>
        snd (analyze_recent_logs self n now paths logs) = self \<and>
        map without_time
          (fst (analyze_recent_logs (snd (analyze_recent_logs self n now paths logs)) n now' paths logs)) =
        map without_time (fst (analyze_recent_logs self n now paths logs))"
    using run_without_time [of self n now' paths logs now] by (simp add: run_keeps_given_state)
  have c: "jitter_grades
        (fst (analyze_recent_logs (snd (analyze_recent_logs self n now paths logs)) n now' paths logs)) =
        jitter_grades (fst (analyze_recent_logs self n now paths logs))"
    by (simp only: jitter_grades_run run_state_repeats)
  have d: "buffer_grades
        (fst (analyze_recent_logs (snd (analyze_recent_logs self n now paths logs)) n now' paths logs)) =
        buffer_grades (fst (analyze_recent_logs self n now paths logs))"
    by (simp only: buffer_grades_run)
  show ?thesis
    unfolding Let_def using a b c d run_state_repeats [of self n now paths logs now'] by blast
qed


text \<open>
  Two runs on one object made with an explicit 1920 microseconds, and two runs on one
  object made without a cycle time, each on a journal of one record.
\<close>

theorem repeated_run_witness:
  "truthy (self_cycle_time_us (DirettaMonitor ''diretta_sync_host'' (Some 1920)))
   \<and> snd (analyze_recent_logs (DirettaMonitor ''diretta_sync_host'' (Some 1920))
            1000 ''2026-01-01 00:00:00'' []
            (''info rcv 2 -0.0110 -0.0110 0.0019 cy=3185960450'' @ [CHR 0x0A]))
       = DirettaMonitor ''diretta_sync_host'' (Some 1920)
   \<and> map without_time
        (fst (analyze_recent_logs
               (snd (analyze_recent_logs (DirettaMonitor ''diretta_sync_host'' (Some 1920))
                      1000 ''2026-01-01 00:00:00'' []
                      (''info rcv 2 -0.0110 -0.0110 0.0019 cy=3185960450'' @ [CHR 0x0A])))
               1000 ''2026-01-01 00:00:01'' []
               (''info rcv 2 -0.0110 -0.0110 0.0019 cy=3185960450'' @ [CHR 0x0A])))
     = map without_time
        (fst (analyze_recent_logs (DirettaMonitor ''diretta_sync_host'' (Some 1920))
               1000 ''2026-01-01 00:00:00'' []
               (''info rcv 2 -0.0110 -0.0110 0.0019 cy=3185960450'' @ [CHR 0x0A])))
   \<and> snd (analyze_recent_logs
            (snd (analyze_recent_logs (DirettaMonitor ''diretta_sync_host'' None)
                   1000 ''2026-01-01 00:00:00'' []
                   (''info rcv 2 -0.0110 -0.0110 0.0019 cy=3185960450'' @ [CHR 0x0A])))
            1000 ''2026-01-01 00:00:01'' []
            (''info rcv 2 -0.0110 -0.0110 0.0019 cy=3185960450'' @ [CHR 0x0A]))
       = \<lparr>self_service_name = ''diretta_sync_host'', self_cycle_time_us = Some 3185.96045\<rparr>"
proof -
  have t: "truthy (self_cycle_time_us (DirettaMonitor ''diretta_sync_host'' (Some 1920)))"
    by (simp add: DirettaMonitor_def)
  have s: "snd (analyze_recent_logs (DirettaMonitor ''diretta_sync_host'' None)
                   1000 ''2026-01-01 00:00:00'' []
                   (''info rcv 2 -0.0110 -0.0110 0.0019 cy=3185960450'' @ [CHR 0x0A]))
       = \<lparr>self_service_name = ''diretta_sync_host'', self_cycle_time_us = Some 3185.96045\<rparr>"
    unfolding analyze_recent_logs_def parse_one_line
    by (simp add: Let_def report_body_def item_of_def np_mean_def DirettaMonitor_def)
  show ?thesis
    using t s
      repeated_run
        [where self = "DirettaMonitor ''diretta_sync_host'' (Some 1920)" and n = 1000
           and now = "''2026-01-01 00:00:00''" and now' = "''2026-01-01 00:00:01''"
           and paths = "[]"
           and logs = "''info rcv 2 -0.0110 -0.0110 0.0019 cy=3185960450'' @ [CHR 0x0A]"]
      repeated_run
        [where self = "DirettaMonitor ''diretta_sync_host'' None" and n = 1000
           and now = "''2026-01-01 00:00:00''" and now' = "''2026-01-01 00:00:01''"
           and paths = "[]"
           and logs = "''info rcv 2 -0.0110 -0.0110 0.0019 cy=3185960450'' @ [CHR 0x0A]"]
    by (simp add: Let_def)
qed

section \<open>The matcher on log lines\<close>

lemma push_map: "push c cur = map_option (\<lambda>g. g @ [c]) cur"
  by (cases cur) simp_all

lemma keep_first: "(case x of None \<Rightarrow> None | Some m \<Rightarrow> Some m) = x"
  by (cases x) simp_all

lemma bt_Plus_reject: "\<not> atom_ok a c \<Longrightarrow> bt (Plus a # r) (c # cs) cur caps = None"
  by simp

lemma bt_Plus_stop: "takeWhile (atom_ok a) s = [] \<Longrightarrow> bt (Plus a # r) s cur caps = None"
  by (cases s) (simp_all split: if_splits)

lemma bt_Plus_all:
  assumes "u \<noteq> []" and "list_all (atom_ok a) u" and "takeWhile (atom_ok a) s = []"
    and rej: "\<And>ch t cur'. atom_ok a ch \<Longrightarrow> bt r (ch # t) cur' caps = None"
  shows "bt (Plus a # r) (u @ s) cur caps = bt r s (map_option (\<lambda>g. g @ u) cur) caps"
  using assms(1,2)
proof (induction u arbitrary: cur)
  case Nil
  then show ?case by simp
next
  case (Cons c u)
  have ok: "atom_ok a c" and rest: "list_all (atom_ok a) u" using Cons.prems(2) by simp_all
  have cur: "map_option (\<lambda>g. g @ u) (push c cur) = map_option (\<lambda>g. g @ c # u) cur"
    by (cases cur) simp_all
  show ?case
  proof (cases "u = []")
    case True
    then show ?thesis
      using ok bt_Plus_stop [OF assms(3), of r "push c cur" caps] by (simp add: push_map)
  next
    case False
    from Cons.IH [OF False rest, of "push c cur"]
    have ih: "bt (Plus a # r) (u @ s) (push c cur) caps = bt r s (map_option (\<lambda>g. g @ c # u) cur) caps"
      by (simp only: cur)
    obtain c' u' where u: "u = c' # u'" using False by (cases u) auto
    have ok': "atom_ok a c'" using rest u by simp
    have fallback: "bt r (u @ s) (push c cur) caps = None"
      unfolding u using rej [OF ok'] by simp
    show ?thesis
      using ok ih fallback by (simp add: keep_first split: option.splits)
  qed
qed

lemma bt_Plus_greedy:
  assumes "u \<noteq> []" and "list_all (atom_ok a) u" and "takeWhile (atom_ok a) s = []"
    and "bt r s (map_option (\<lambda>g. g @ u) cur) caps = Some m"
  shows "bt (Plus a # r) (u @ s) cur caps = Some m"
  using assms(1,2,4)
proof (induction u arbitrary: cur)
  case Nil
  then show ?case by simp
next
  case (Cons c u)
  have ok: "atom_ok a c" and rest: "list_all (atom_ok a) u" using Cons.prems(2) by simp_all
  have cur: "map_option (\<lambda>g. g @ u) (push c cur) = map_option (\<lambda>g. g @ c # u) cur"
    by (cases cur) simp_all
  show ?case
  proof (cases "u = []")
    case True
    then show ?thesis
      using ok bt_Plus_stop [OF assms(3), of r "push c cur" caps] Cons.prems(3)
      by (simp add: push_map)
  next
    case False
    have "bt r s (map_option (\<lambda>g. g @ u) (push c cur)) caps = Some m"
      using Cons.prems(3) by (simp only: cur)
    from Cons.IH [OF False rest this]
    show ?thesis using ok by simp
  qed
qed

lemma bt_lit: "bt (lit w @ r) (w @ s) cur caps = bt r s (map_option (\<lambda>g. g @ w) cur) caps"
proof (induction w arbitrary: cur)
  case Nil
  then show ?case by (simp add: lit_def option.map_ident)
next
  case (Cons c w)
  have "map_option (\<lambda>g. g @ w) (push c cur) = map_option (\<lambda>g. g @ c # w) cur"
    by (cases cur) simp_all
  then show ?case using Cons.IH [of "push c cur"] by (simp add: lit_def)
qed

lemma space_not_digit: "is_space c \<Longrightarrow> \<not> is_digit c"
  by (auto simp add: is_space_def is_digit_def)

lemma space_not_mark:
  "is_space c \<Longrightarrow> c \<notin> set ''+-.=inforcvy''"
  by (auto simp add: is_space_def)

lemma digit_not_mark:
  "is_digit c \<Longrightarrow> c \<notin> set ''+-.=inforcvy''"
  by (auto simp add: is_digit_def)

lemma digit_not_space: "is_digit c \<Longrightarrow> \<not> is_space c"
  by (auto simp add: is_space_def is_digit_def)

lemma takeWhile_head: "u \<noteq> [] \<Longrightarrow> \<not> P (hd u) \<Longrightarrow> takeWhile P (u @ t) = []"
  by (cases u) simp_all

lemma separator_spaces: "is_separator w \<Longrightarrow> w \<noteq> [] \<and> list_all is_space w"
  by (auto simp add: is_separator_def is_space_def list_all_iff)

lemma separator_head: "is_separator w \<Longrightarrow> is_space (hd w)"
  by (cases w) (auto dest: separator_spaces)

lemma separator_stops_digits: "is_separator w \<Longrightarrow> takeWhile is_digit (w @ t) = []"
  using separator_spaces [of w] separator_head [of w]
  by (auto intro!: takeWhile_head dest: space_not_digit)

lemma number_head: "is_number n \<Longrightarrow> is_digit (hd n)"
  by (cases n) (auto simp add: is_number_def)

lemma number_stops_spaces: "is_number n \<Longrightarrow> takeWhile is_space (n @ t) = []"
  using number_head [of n]
  by (auto intro!: takeWhile_head dest: digit_not_space simp add: is_number_def)

text \<open>The parts of a signed decimal.\<close>

lemma decimal_parts:
  assumes "is_decimal d"
  obtains sg ip fp where "d = sg @ ip @ ''.'' @ fp"
    and "sg = [] \<or> sg = ''+'' \<or> sg = ''-''" and "is_number ip" and "is_number fp"
proof -
  define body where "body = snd (strip_sign d)"
  define ip where "ip = takeWhile is_digit body"
  define rest where "rest = dropWhile is_digit body"
  have ip: "ip \<noteq> []" using assms by (simp add: is_decimal_def Let_def ip_def body_def)
  obtain fp where rest: "rest = CHR ''.'' # fp" and fp: "fp \<noteq> []" "list_all is_digit fp"
    using assms by (auto simp add: is_decimal_def Let_def rest_def body_def split: list.splits)
  have body: "body = ip @ ''.'' @ fp"
    using takeWhile_dropWhile_id [of is_digit body] by (simp add: ip_def rest_def [symmetric] rest)
  have all: "list_all is_digit ip"
    by (simp add: ip_def list_all_iff) (metis set_takeWhileD)
  define sg where
    "sg = (if d \<noteq> [] \<and> hd d = CHR ''-'' then ''-''
          else if d \<noteq> [] \<and> hd d = CHR ''+'' then ''+'' else [])"
  have "d = sg @ body" "sg = [] \<or> sg = ''+'' \<or> sg = ''-''"
    by (cases d; simp add: body_def strip_sign_def sg_def)+
  then show ?thesis
    using that [of sg ip fp] body ip all fp by (simp add: is_number_def)
qed

lemma decimal_head: "is_decimal d \<Longrightarrow> d \<noteq> [] \<and> \<not> is_space (hd d)"
proof -
  assume "is_decimal d"
  then obtain sg ip fp where d: "d = sg @ ip @ ''.'' @ fp"
    and sg: "sg = [] \<or> sg = ''+'' \<or> sg = ''-''" and ip: "is_number ip"
    by (rule decimal_parts)
  have "\<not> is_space (hd ip)" "ip \<noteq> []" using number_head [OF ip] ip
    by (auto dest: digit_not_space simp add: is_number_def)
  then show ?thesis using sg d by (auto simp add: is_space_def)
qed

lemma decimal_stops_spaces: "is_decimal d \<Longrightarrow> takeWhile is_space (d @ t) = []"
  using decimal_head [of d] by (auto intro!: takeWhile_head)

lemma atom_ok_class: "atom_ok Space = is_space" "atom_ok Digit = is_digit"
  by (rule ext, simp)+

lemma bt_Opt_taken:
  "atom_ok a c \<Longrightarrow> bt r (c # cs) cur caps = None \<Longrightarrow>
   bt (Opt a # r) (c # cs) cur caps = bt r cs (push c cur) caps"
  by (simp split: option.splits)

lemma separator_then_lit:
  assumes "is_separator w" and "v \<noteq> []" and "\<not> is_space (hd v)"
  shows "bt (Plus Space # lit v @ r) (w @ v @ s) cur caps =
         bt r s (map_option (\<lambda>g. g @ w @ v) cur) caps"
proof -
  obtain x v' where v: "v = x # v'" using assms(2) by (cases v) auto
  have x: "\<not> is_space x" using assms(3) v by simp
  have "bt (Plus Space # lit v @ r) (w @ v @ s) cur caps =
        bt (lit v @ r) (v @ s) (map_option (\<lambda>g. g @ w) cur) caps"
  proof (rule bt_Plus_all)
    show "w \<noteq> []" "list_all (atom_ok Space) w"
      using separator_spaces [OF assms(1)] by (simp_all add: atom_ok_class)
    show "takeWhile (atom_ok Space) (v @ s) = []" using x v by simp
    show "bt (lit v @ r) (ch # t) cur' caps = None" if "atom_ok Space ch" for ch t cur'
      using that x v by (auto simp add: lit_def)
  qed
  also have "\<dots> = bt r s (map_option (\<lambda>g. g @ w @ v) cur) caps"
    by (simp add: bt_lit option.map_comp comp_def)
  finally show ?thesis .
qed

lemma separator_then_digits:
  assumes "is_separator w" and "takeWhile is_space s = []"
  shows "bt (Plus Space # Plus Digit # r) (w @ s) cur caps =
         bt (Plus Digit # r) s (map_option (\<lambda>g. g @ w) cur) caps"
proof (rule bt_Plus_all)
  show "w \<noteq> []" "list_all (atom_ok Space) w"
    using separator_spaces [OF assms(1)] by (simp_all add: atom_ok_class)
  show "takeWhile (atom_ok Space) s = []" using assms(2) by (simp add: atom_ok_class)
  show "bt (Plus Digit # r) (ch # t) cur' caps = None" if "atom_ok Space ch" for ch t cur'
    using that by (simp add: space_not_digit)
qed

lemma separator_then_group:
  assumes "is_separator w" and "takeWhile is_space s = []"
  shows "bt (Plus Space # decimal_group @ r) (w @ s) cur caps =
         bt (decimal_group @ r) s (map_option (\<lambda>g. g @ w) cur) caps"
proof (rule bt_Plus_all)
  show "w \<noteq> []" "list_all (atom_ok Space) w"
    using separator_spaces [OF assms(1)] by (simp_all add: atom_ok_class)
  show "takeWhile (atom_ok Space) s = []" using assms(2) by (simp add: atom_ok_class)
  show "bt (decimal_group @ r) (ch # t) cur' caps = None" if "atom_ok Space ch" for ch t cur'
    using that space_not_mark [of ch] by (simp add: decimal_group_def space_not_digit)
qed

lemma digits_then_separator:
  assumes "is_number n" and "takeWhile is_digit s = []"
  shows "bt (Plus Digit # Plus Space # r) (n @ s) cur caps =
         bt (Plus Space # r) s (map_option (\<lambda>g. g @ n) cur) caps"
proof (rule bt_Plus_all)
  show "n \<noteq> []" "list_all (atom_ok Digit) n"
    using assms(1) by (simp_all add: atom_ok_class is_number_def)
  show "takeWhile (atom_ok Digit) s = []" using assms(2) by (simp add: atom_ok_class)
  show "bt (Plus Space # r) (ch # t) cur' caps = None" if "atom_ok Digit ch" for ch t cur'
    using that by (simp add: digit_not_space)
qed

lemma digits_then_point:
  assumes "is_number n"
  shows "bt (Plus Digit # One (Chr CHR ''.'') # r) (n @ ''.'' @ s) cur caps =
         bt r s (map_option (\<lambda>g. g @ n @ ''.'') cur) caps"
proof -
  have "bt (Plus Digit # One (Chr CHR ''.'') # r) (n @ ''.'' @ s) cur caps =
        bt (One (Chr CHR ''.'') # r) (''.'' @ s) (map_option (\<lambda>g. g @ n) cur) caps"
  proof (rule bt_Plus_all)
    show "n \<noteq> []" "list_all (atom_ok Digit) n"
      using assms(1) by (simp_all add: atom_ok_class is_number_def)
    show "takeWhile (atom_ok Digit) (''.'' @ s) = []" by (simp add: is_digit_def)
    show "bt (One (Chr CHR ''.'') # r) (ch # t) cur' caps = None" if "atom_ok Digit ch" for ch t cur'
      using that digit_not_mark [of ch] by simp
  qed
  also have "\<dots> = bt r s (map_option (\<lambda>g. g @ n @ ''.'') cur) caps"
    by (cases cur) simp_all
  finally show ?thesis .
qed

lemma digits_then_close:
  assumes "is_number n" and "takeWhile is_digit s = []"
  shows "bt (Plus Digit # Close # Plus Space # r) (n @ s) (Some g) caps =
         bt (Plus Space # r) s None (caps @ [g @ n])"
proof -
  have "bt (Plus Digit # Close # Plus Space # r) (n @ s) (Some g) caps =
        bt (Close # Plus Space # r) s (map_option (\<lambda>g. g @ n) (Some g)) caps"
  proof (rule bt_Plus_all)
    show "n \<noteq> []" "list_all (atom_ok Digit) n"
      using assms(1) by (simp_all add: atom_ok_class is_number_def)
    show "takeWhile (atom_ok Digit) s = []" using assms(2) by (simp add: atom_ok_class)
    show "bt (Close # Plus Space # r) (ch # t) cur' caps = None" if "atom_ok Digit ch" for ch t cur'
      using that by (simp add: digit_not_space)
  qed
  then show ?thesis by simp
qed

text \<open>A signed decimal before a blank is taken whole by the group \<open>([+-]?\d+\.\d+)\<close>.\<close>

lemma bt_decimal_group:
  assumes "is_decimal d" and "takeWhile is_digit s = []"
  shows "bt (decimal_group @ Plus Space # r) (d @ s) None caps =
         bt (Plus Space # r) s None (caps @ [d])"
proof -
  obtain sg ip fp where d: "d = sg @ ip @ ''.'' @ fp"
    and sg: "sg = [] \<or> sg = ''+'' \<or> sg = ''-''" and ip: "is_number ip" and fp: "is_number fp"
    using assms(1) by (rule decimal_parts)
  let ?R = "Plus Digit # One (Chr CHR ''.'') # Plus Digit # Close # Plus Space # r"
  have body: "bt ?R (ip @ ''.'' @ fp @ s) (Some g) caps = bt (Plus Space # r) s None (caps @ [g @ ip @ ''.'' @ fp])"
    for g
    using digits_then_point [OF ip, of "Plus Digit # Close # Plus Space # r" "fp @ s" "Some g" caps]
      digits_then_close [OF fp assms(2), of r "g @ ip @ ''.''" caps]
    by simp
  obtain c ip' where ipc: "ip = c # ip'" and c: "is_digit c"
    using ip number_head [OF ip] by (cases ip) (auto simp add: is_number_def)
  have unsigned: "bt (Opt Sign # ?R) (ip @ ''.'' @ fp @ s) (Some []) caps = bt ?R (ip @ ''.'' @ fp @ s) (Some []) caps"
    using digit_not_mark [OF c] by (simp add: ipc)
  have signed: "bt (Opt Sign # ?R) (x # ip @ ''.'' @ fp @ s) (Some []) caps = bt ?R (ip @ ''.'' @ fp @ s) (Some [x]) caps"
    if "x = CHR ''+'' \<or> x = CHR ''-''" for x
  proof -
    have "\<not> is_digit x" using that by (auto simp add: is_digit_def)
    then have fb: "bt ?R (x # ip @ ''.'' @ fp @ s) (Some []) caps = None"
      by simp
    have "bt (Opt Sign # ?R) (x # ip @ ''.'' @ fp @ s) (Some []) caps =
          bt ?R (ip @ ''.'' @ fp @ s) (push x (Some [])) caps"
    proof (rule bt_Opt_taken)
      show "atom_ok Sign x" using that by simp
      show "bt ?R (x # ip @ ''.'' @ fp @ s) (Some []) caps = None" by (rule fb)
    qed
    then show ?thesis by simp
  qed
  show ?thesis
    using sg
  proof (elim disjE)
    assume "sg = []"
    then show ?thesis using unsigned body [of "[]"] by (simp add: decimal_group_def d)
  next
    assume "sg = ''+''"
    then show ?thesis using signed [of "CHR ''+''"] body [of "''+''"] by (simp add: decimal_group_def d)
  next
    assume "sg = ''-''"
    then show ?thesis using signed [of "CHR ''-''"] body [of "''-''"] by (simp add: decimal_group_def d)
  qed
qed

lemma pattern_unfolded:
  "pattern = lit ''info'' @ Plus Space # lit ''rcv'' @ Plus Space # Plus Digit # Plus Space #
             decimal_group @ Plus Space # decimal_group @ Plus Space #
             decimal_group @ Plus Space # lit ''cy='' @ number_group"
  by (simp add: pattern_def)

text \<open>
  The match of a record up to its correction field: the marker, the tag and the first two
  decimals are taken, and the third group is tried on what follows.
\<close>

lemma bt_record_prefix:
  assumes "is_separator w1" "is_separator w2" "is_separator w3" "is_separator w4" "is_separator w5"
    and "is_number n" and "is_decimal d" and "is_decimal a"
    and "takeWhile is_space s = []"
  shows "bt pattern (''info'' @ w1 @ ''rcv'' @ w2 @ n @ w3 @ d @ w4 @ a @ w5 @ s) None [] =
         bt (decimal_group @ Plus Space # lit ''cy='' @ number_group) s None [d, a]"
proof -
  let ?G3 = "decimal_group @ Plus Space # lit ''cy='' @ number_group"
  let ?G2 = "decimal_group @ Plus Space # ?G3"
  let ?G1 = "decimal_group @ Plus Space # ?G2"
  have "bt pattern (''info'' @ w1 @ ''rcv'' @ w2 @ n @ w3 @ d @ w4 @ a @ w5 @ s) None [] =
        bt (Plus Space # lit ''rcv'' @ Plus Space # Plus Digit # Plus Space # ?G1)
           (w1 @ ''rcv'' @ w2 @ n @ w3 @ d @ w4 @ a @ w5 @ s) None []"
    unfolding pattern_unfolded by (simp only: bt_lit option.map)
  also have "\<dots> = bt (Plus Space # Plus Digit # Plus Space # ?G1)
                      (w2 @ n @ w3 @ d @ w4 @ a @ w5 @ s) None []"
    using separator_then_lit [OF assms(1), of "''rcv''" _ _ None]
    by (simp add: is_space_def)
  also have "\<dots> = bt (Plus Digit # Plus Space # ?G1) (n @ w3 @ d @ w4 @ a @ w5 @ s) None []"
    using separator_then_digits [OF assms(2) number_stops_spaces [OF assms(6)], of _ _ None]
    by simp
  also have "\<dots> = bt (Plus Space # ?G1) (w3 @ d @ w4 @ a @ w5 @ s) None []"
    using digits_then_separator [OF assms(6) separator_stops_digits [OF assms(3)], of _ _ None]
    by simp
  also have "\<dots> = bt ?G1 (d @ w4 @ a @ w5 @ s) None []"
    using separator_then_group [OF assms(3) decimal_stops_spaces [OF assms(7)], of _ _ None]
    by simp
  also have "\<dots> = bt (Plus Space # ?G2) (w4 @ a @ w5 @ s) None [d]"
    using bt_decimal_group [OF assms(7) separator_stops_digits [OF assms(4)], of _ _ "[]"]
    by simp
  also have "\<dots> = bt ?G2 (a @ w5 @ s) None [d]"
    using separator_then_group [OF assms(4) decimal_stops_spaces [OF assms(8)], of _ _ None]
    by simp
  also have "\<dots> = bt (Plus Space # ?G3) (w5 @ s) None [d, a]"
    using bt_decimal_group [OF assms(8) separator_stops_digits [OF assms(5)], of _ _ "[d]"]
    by simp
  also have "\<dots> = bt ?G3 s None [d, a]"
    using separator_then_group [OF assms(5) assms(9), of _ None]
    by simp
  finally show ?thesis .
qed

lemma bt_number_group:
  assumes "is_number p" and "takeWhile is_digit t = []"
  shows "bt number_group (p @ t) None caps = Some (caps @ [p], t)"
proof -
  have "bt (Plus Digit # [Close]) (p @ t) (Some []) caps = Some (caps @ [p], t)"
  proof (rule bt_Plus_greedy)
    show "p \<noteq> []" "list_all (atom_ok Digit) p"
      using assms(1) by (simp_all add: atom_ok_class is_number_def)
    show "takeWhile (atom_ok Digit) t = []" using assms(2) by (simp add: atom_ok_class)
    show "bt [Close] t (map_option (\<lambda>g. g @ p) (Some [])) caps = Some (caps @ [p], t)"
      by simp
  qed
  then show ?thesis by (simp add: number_group_def)
qed

text \<open>A well-formed record is matched whole, with its four fields captured.\<close>

lemma bt_well_formed:
  assumes "well_formed_line ws n d a c p" and "takeWhile is_digit t = []"
  shows "bt pattern (log_record ws n d a c p @ t) None [] = Some ([d, a, c, p], t)"
proof -
  obtain w1 w2 w3 w4 w5 w6 where ws: "ws = [w1, w2, w3, w4, w5, w6]"
    using assms(1) by (auto simp add: well_formed_line_def length_Suc_conv eval_nat_numeral)
  have sep: "is_separator w1" "is_separator w2" "is_separator w3" "is_separator w4"
      "is_separator w5" "is_separator w6"
    and f: "is_number n" "is_decimal d" "is_decimal a" "is_decimal c" "is_number p"
    using assms(1) by (simp_all add: well_formed_line_def ws)
  let ?G3 = "decimal_group @ Plus Space # lit ''cy='' @ number_group"
  have "bt pattern (log_record ws n d a c p @ t) None [] =
        bt ?G3 (c @ w6 @ ''cy='' @ p @ t) None [d, a]"
    using bt_record_prefix [OF sep(1-5) f(1-3) decimal_stops_spaces [OF f(4)],
        of "w6 @ ''cy='' @ p @ t"]
    by (simp add: ws)
  also have "\<dots> = bt (Plus Space # lit ''cy='' @ number_group) (w6 @ ''cy='' @ p @ t) None [d, a, c]"
    using bt_decimal_group [OF f(4) separator_stops_digits [OF sep(6)], of _ _ "[d, a]"]
    by simp
  also have "\<dots> = bt number_group (p @ t) None [d, a, c]"
    using separator_then_lit [OF sep(6), of "''cy=''" _ _ None]
    by (simp add: is_space_def)
  also have "\<dots> = Some ([d, a, c, p], t)"
    using bt_number_group [OF f(5) assms(2), of "[d, a, c]"] by simp
  finally show ?thesis .
qed

lemma takeWhile_dropWhile_empty: "takeWhile P (dropWhile P xs) = []"
  by (induction xs) simp_all

lemma bt_Plus_span:
  assumes rej: "\<And>ch t cur'. atom_ok a ch \<Longrightarrow> bt r (ch # t) cur' caps = None"
  shows "bt (Plus a # r) s cur caps =
         (if takeWhile (atom_ok a) s = [] then None
          else bt r (dropWhile (atom_ok a) s)
                 (map_option (\<lambda>g. g @ takeWhile (atom_ok a) s) cur) caps)"
proof (cases "takeWhile (atom_ok a) s = []")
  case True
  then show ?thesis by (simp add: bt_Plus_stop)
next
  case False
  have all: "list_all (atom_ok a) (takeWhile (atom_ok a) s)"
    by (simp add: list_all_iff) (metis set_takeWhileD)
  have "bt (Plus a # r) (takeWhile (atom_ok a) s @ dropWhile (atom_ok a) s) cur caps =
        bt r (dropWhile (atom_ok a) s) (map_option (\<lambda>g. g @ takeWhile (atom_ok a) s) cur) caps"
    using False all takeWhile_dropWhile_empty rej by (rule bt_Plus_all)
  then show ?thesis using False by simp
qed

lemma digits_before_separator:
  assumes "is_separator w"
  shows "takeWhile is_digit (b @ w @ t) = takeWhile is_digit b"
    and "dropWhile is_digit (b @ w @ t) = dropWhile is_digit b @ w @ t"
proof -
  have stop: "takeWhile is_digit (w @ t) = []" using assms by (rule separator_stops_digits)
  then have keep: "dropWhile is_digit (w @ t) = w @ t"
    using takeWhile_dropWhile_id [of is_digit "w @ t"] by simp
  show "takeWhile is_digit (b @ w @ t) = takeWhile is_digit b"
    by (induction b) (simp_all add: stop)
  show "dropWhile is_digit (b @ w @ t) = dropWhile is_digit b @ w @ t"
    by (induction b) (simp_all add: keep)
qed

text \<open>
  Text without blanks that is not a signed decimal, before a separator: the digits, the
  point and the digits of the group cannot end exactly where the text ends.
\<close>

lemma bt_digits_point_digits_fails:
  assumes nosp: "list_all (\<lambda>ch. \<not> is_space ch) body" and sep: "is_separator w"
    and bad: "\<not> (takeWhile is_digit body \<noteq> [] \<and>
                 (case dropWhile is_digit body of
                    [] \<Rightarrow> False
                  | c # fp \<Rightarrow> c = CHR ''.'' \<and> fp \<noteq> [] \<and> list_all is_digit fp))"
  shows "bt (Plus Digit # One (Chr CHR ''.'') # Plus Digit # Close # Plus Space # r)
            (body @ w @ t) cur caps = None"
proof -
  let ?R2 = "Plus Digit # Close # Plus Space # r"
  obtain c2 w' where w: "w = c2 # w'" and c2: "is_space c2"
    using separator_spaces [OF sep] by (cases w) auto
  have c2_mark: "c2 \<noteq> CHR ''.''" using space_not_mark [OF c2] by simp
  have first: "bt (Plus Digit # One (Chr CHR ''.'') # ?R2) (body @ w @ t) cur caps =
        (if takeWhile is_digit body = [] then None
         else bt (One (Chr CHR ''.'') # ?R2) (dropWhile is_digit body @ w @ t)
                (map_option (\<lambda>g. g @ takeWhile is_digit body) cur) caps)"
  proof -
    have "bt (One (Chr CHR ''.'') # ?R2) (ch # t') cur' caps = None" if "atom_ok Digit ch"
      for ch t' cur'
      using that digit_not_mark [of ch] by simp
    from bt_Plus_span [of Digit "One (Chr CHR ''.'') # ?R2" caps "body @ w @ t" cur, OF this]
    show ?thesis by (simp add: atom_ok_class digits_before_separator [OF sep])
  qed
  show ?thesis
  proof (cases "takeWhile is_digit body = []")
    case True
    then show ?thesis by (simp add: first)
  next
    case ip: False
    have tail: "bt (One (Chr CHR ''.'') # ?R2) (dropWhile is_digit body @ w @ t) cur' caps = None"
      for cur'
    proof (cases "dropWhile is_digit body")
      case Nil
      show ?thesis unfolding Nil w using c2_mark by simp
    next
      case (Cons c fp0)
      have sub: "set fp0 \<subseteq> set body"
        using set_dropWhileD [of _ is_digit body] Cons by auto
      show ?thesis
      proof (cases "c = CHR ''.''")
        case False
        then show ?thesis unfolding Cons by simp
      next
        case True
        have second: "bt ?R2 (fp0 @ w @ t) cur'' caps =
              (if takeWhile is_digit fp0 = [] then None
               else bt (Close # Plus Space # r) (dropWhile is_digit fp0 @ w @ t)
                      (map_option (\<lambda>g. g @ takeWhile is_digit fp0) cur'') caps)" for cur''
        proof -
          have "bt (Close # Plus Space # r) (ch # t') cur3 caps = None" if "atom_ok Digit ch"
            for ch t' cur3
            using that by (simp add: digit_not_space)
          from bt_Plus_span [of Digit "Close # Plus Space # r" caps "fp0 @ w @ t" cur'', OF this]
          show ?thesis by (simp add: atom_ok_class digits_before_separator [OF sep])
        qed
        have third: "bt (Close # Plus Space # r) (dropWhile is_digit fp0 @ w @ t) cur3 caps = None"
          if fp: "takeWhile is_digit fp0 \<noteq> []" for cur3
        proof (cases "dropWhile is_digit fp0")
          case Nil
          then have "list_all is_digit fp0"
            by (simp add: list_all_iff)
          moreover have "fp0 \<noteq> []" using fp by auto
          ultimately have "takeWhile is_digit body \<noteq> [] \<and>
                 (case dropWhile is_digit body of
                    [] \<Rightarrow> False
                  | c # fp \<Rightarrow> c = CHR ''.'' \<and> fp \<noteq> [] \<and> list_all is_digit fp)"
            unfolding Cons using ip True by simp
          then show ?thesis using bad by (rule notE [rotated])
        next
          case (Cons c' rest2)
          have "c' \<in> set fp0" using set_dropWhileD [of c' is_digit fp0] Cons by simp
          then have "\<not> is_space c'" using sub nosp by (auto simp add: list_all_iff)
          then show ?thesis unfolding Cons by simp
        qed
        have "bt ?R2 (fp0 @ w @ t) cur'' caps = None" for cur''
        proof (cases "takeWhile is_digit fp0 = []")
          case True
          then show ?thesis by (simp add: second)
        next
          case False
          from third [OF False] show ?thesis by (simp only: second False if_False)
        qed
        then show ?thesis unfolding Cons True by simp
      qed
    qed
    show ?thesis by (simp only: first ip if_False tail)
  qed
qed

lemma bt_group_rejects_field:
  assumes "x \<noteq> []" and "list_all (\<lambda>ch. \<not> is_space ch) x" and "\<not> is_decimal x"
    and "is_separator w"
  shows "bt (decimal_group @ Plus Space # r) (x @ w @ t) None caps = None"
proof -
  let ?R = "Plus Digit # One (Chr CHR ''.'') # Plus Digit # Close # Plus Space # r"
  obtain c x' where x: "x = c # x'" using assms(1) by (cases x) auto
  have fails: "bt ?R (snd (strip_sign x) @ w @ t) cur caps = None" for cur
  proof (rule bt_digits_point_digits_fails [OF _ assms(4)])
    show "list_all (\<lambda>ch. \<not> is_space ch) (snd (strip_sign x))"
      using assms(2) by (simp add: x strip_sign_def)
    show "\<not> (takeWhile is_digit (snd (strip_sign x)) \<noteq> [] \<and>
             (case dropWhile is_digit (snd (strip_sign x)) of
                [] \<Rightarrow> False
              | c # fp \<Rightarrow> c = CHR ''.'' \<and> fp \<noteq> [] \<and> list_all is_digit fp))"
      using assms(3) by (simp add: is_decimal_def Let_def)
  qed
  show ?thesis
  proof (cases "c = CHR ''-'' \<or> c = CHR ''+''")
    case True
    then have body: "snd (strip_sign x) = x'" by (auto simp add: x strip_sign_def)
    have "\<not> is_digit c" using True by (auto simp add: is_digit_def)
    then have fb: "bt ?R (c # x' @ w @ t) (Some []) caps = None" by simp
    have "bt (Opt Sign # ?R) (c # x' @ w @ t) (Some []) caps =
          bt ?R (x' @ w @ t) (push c (Some [])) caps"
    proof (rule bt_Opt_taken)
      show "atom_ok Sign c" using True by auto
      show "bt ?R (c # x' @ w @ t) (Some []) caps = None" by (rule fb)
    qed
    then show ?thesis
      using fails [of "push c (Some [])", unfolded body] by (simp add: decimal_group_def x)
  next
    case False
    then have body: "snd (strip_sign x) = x" by (auto simp add: x strip_sign_def)
    have "bt (Opt Sign # ?R) (c # x' @ w @ t) (Some []) caps = bt ?R (c # x' @ w @ t) (Some []) caps"
      using False by (simp del: bt.simps(9))
    then show ?thesis
      using fails [of "Some []", unfolded body] by (simp add: decimal_group_def x del: bt.simps(9))
  qed
qed

lemma six_separators:
  assumes "length ws = 6" and "list_all is_separator ws"
  obtains w1 w2 w3 w4 w5 w6 where "ws = [w1, w2, w3, w4, w5, w6]"
    and "is_separator w1" "is_separator w2" "is_separator w3"
    and "is_separator w4" "is_separator w5" "is_separator w6"
proof -
  obtain w1 w2 w3 w4 w5 w6 where ws: "ws = [w1, w2, w3, w4, w5, w6]"
    using assms(1) by (auto simp add: length_Suc_conv eval_nat_numeral)
  show ?thesis by (rule that [OF ws]) (use assms(2) ws in simp_all)
qed

text \<open>At the start of a line whose correction field is corrupted the pattern fails.\<close>

lemma bt_corrupted:
  assumes "corrupted_line ws n d a x p"
  shows "bt pattern (log_record ws n d a x p @ t) None [] = None"
proof -
  have len: "length ws = 6" "list_all is_separator ws"
    and f: "is_number n" "is_decimal d" "is_decimal a"
    and x: "x \<noteq> []" "list_all (\<lambda>ch. \<not> is_space ch) x" "\<not> is_decimal x"
    using assms by (simp_all add: corrupted_line_def)
  from len obtain w1 w2 w3 w4 w5 w6 where ws: "ws = [w1, w2, w3, w4, w5, w6]"
    and sep: "is_separator w1" "is_separator w2" "is_separator w3"
      "is_separator w4" "is_separator w5" "is_separator w6"
    by (rule six_separators)
  have stop: "takeWhile is_space (x @ w6 @ ''cy='' @ p @ t) = []"
    using x(1,2) by (cases x) simp_all
  have "bt pattern (log_record ws n d a x p @ t) None [] =
        bt (decimal_group @ Plus Space # lit ''cy='' @ number_group)
           (x @ w6 @ ''cy='' @ p @ t) None [d, a]"
    using bt_record_prefix [OF sep(1-5) f stop] by (simp add: ws)
  also have "\<dots> = None"
    using x sep(6) by (rule bt_group_rejects_field)
  finally show ?thesis .
qed

subsection \<open>Scanning\<close>

lemma finditer_step_none: "bt p (c # s) None [] = None \<Longrightarrow> finditer p (c # s) = finditer p s"
  by (simp add: finditer.simps [of p "c # s"])

lemma finditer_step_some:
  "bt p s None [] = Some (caps, t) \<Longrightarrow> length t < length s \<Longrightarrow> finditer p s = caps # finditer p t"
  by (simp add: finditer.simps [of p s])

lemma finditer_pattern_end: "finditer pattern [] = []"
proof -
  have "bt pattern [] None [] = None" by (simp add: pattern_def lit_def)
  then show ?thesis by (simp add: finditer.simps [of pattern "[]"])
qed

lemma must_start_with_i: "c \<noteq> CHR ''i'' \<Longrightarrow> bt pattern (c # s) None [] = None"
  by (simp add: pattern_def lit_def)

lemma skip_without_i: "CHR ''i'' \<notin> set u \<Longrightarrow> finditer pattern (u @ s) = finditer pattern s"
proof (induction u)
  case Nil
  then show ?case by simp
next
  case (Cons c u)
  have "c \<noteq> CHR ''i''" using Cons.prems by auto
  then have "bt pattern (c # u @ s) None [] = None" by (rule must_start_with_i)
  then have "finditer pattern (c # u @ s) = finditer pattern (u @ s)" by (rule finditer_step_none)
  then show ?case using Cons by simp
qed

lemma bt_lit_needs_word: "bt (lit v @ r) s cur caps \<noteq> None \<Longrightarrow> \<exists>s'. s = v @ s'"
proof (induction v arbitrary: s cur)
  case Nil
  then show ?case by simp
next
  case (Cons c v)
  then obtain x xs where s: "s = x # xs" by (cases s) (auto simp add: lit_def)
  have "x = c" and "bt (lit v @ r) xs (push c cur) caps \<noteq> None"
    using Cons.prems by (auto simp add: s lit_def split: if_splits)
  with Cons.IH [of xs "push c cur"] show ?case by (auto simp add: s)
qed

text \<open>Inside a field without blanks, and before the separator that ends it, nothing matches.\<close>

lemma no_match_in_field:
  assumes "list_all (\<lambda>ch. \<not> is_space ch) v" and "is_separator w"
  shows "bt pattern (v @ w @ ''cy='' @ t) None [] = None"
proof (rule ccontr)
  assume some: "bt pattern (v @ w @ ''cy='' @ t) None [] \<noteq> None"
  let ?R = "Plus Space # lit ''rcv'' @ Plus Space # Plus Digit # Plus Space #
             decimal_group @ Plus Space # decimal_group @ Plus Space #
             decimal_group @ Plus Space # lit ''cy='' @ number_group"
  have pat: "pattern = lit ''info'' @ ?R" by (simp add: pattern_def)
  obtain s' where s': "v @ w @ ''cy='' @ t = ''info'' @ s'"
    using bt_lit_needs_word [OF some [unfolded pat]] by auto
  have "bt pattern (''info'' @ s') None [] = bt ?R s' None []"
    unfolding pat by (simp only: bt_lit option.map)
  then have rest: "bt ?R s' None [] \<noteq> None"
    using some unfolding s' by simp
  have "takeWhile is_space s' \<noteq> []"
  proof
    assume "takeWhile is_space s' = []"
    then have "takeWhile (atom_ok Space) s' = []" by (simp add: atom_ok_class)
    then have "bt ?R s' None [] = None" by (rule bt_Plus_stop)
    with rest show False by contradiction
  qed
  then obtain c s'' where c: "s' = c # s''" "is_space c"
    by (cases s') (simp_all split: if_splits)
  obtain c2 w' where w: "w = c2 # w'" and c2: "is_space c2"
    using separator_spaces [OF assms(2)] by (cases w) auto
  have "takeWhile (\<lambda>ch. \<not> is_space ch) (v @ w @ ''cy='' @ t) = v"
    using assms(1) c2 by (simp add: w list_all_iff)
  moreover have "takeWhile (\<lambda>ch. \<not> is_space ch) (''info'' @ s') = ''info''"
    using c by (simp add: is_space_def)
  ultimately have v: "v = ''info''" by (simp only: s')
  have "bt ?R (w @ ''cy='' @ t) None [] = None"
  proof -
    let ?T = "Plus Space # Plus Digit # Plus Space #
             decimal_group @ Plus Space # decimal_group @ Plus Space #
             decimal_group @ Plus Space # lit ''cy='' @ number_group"
    have "bt (Plus Space # lit ''rcv'' @ ?T) (w @ ''cy='' @ t) None [] =
          bt (lit ''rcv'' @ ?T) (''cy='' @ t) (map_option (\<lambda>g. g @ w) None) []"
    proof (rule bt_Plus_all)
      show "w \<noteq> []" "list_all (atom_ok Space) w"
        using separator_spaces [OF assms(2)] by (simp_all add: atom_ok_class)
      show "takeWhile (atom_ok Space) (''cy='' @ t) = []" by (simp add: is_space_def)
      show "bt (lit ''rcv'' @ Plus Space # Plus Digit # Plus Space #
             decimal_group @ Plus Space # decimal_group @ Plus Space #
             decimal_group @ Plus Space # lit ''cy='' @ number_group) (ch # t') cur' [] = None"
        if "atom_ok Space ch" for ch t' cur'
        using that space_not_mark [of ch] by (simp add: lit_def)
    qed
    also have "\<dots> = None" by (simp add: lit_def)
    finally show ?thesis .
  qed
  moreover have "bt pattern (''info'' @ w @ ''cy='' @ t) None [] = bt ?R (w @ ''cy='' @ t) None []"
    unfolding pat by (simp only: bt_lit option.map)
  ultimately show False using some unfolding v by simp
qed

lemma skip_field:
  assumes "list_all (\<lambda>ch. \<not> is_space ch) x" and "is_separator w"
  shows "finditer pattern (x @ w @ ''cy='' @ t) = finditer pattern (w @ ''cy='' @ t)"
  using assms(1)
proof (induction x)
  case Nil
  then show ?case by simp
next
  case (Cons c x)
  have "bt pattern ((c # x) @ w @ ''cy='' @ t) None [] = None"
    using Cons.prems assms(2) by (rule no_match_in_field)
  then have "finditer pattern ((c # x) @ w @ ''cy='' @ t) = finditer pattern (x @ w @ ''cy='' @ t)"
    by (simp add: finditer_step_none)
  then show ?case using Cons by simp
qed

lemma no_i_in_separator: "is_separator w \<Longrightarrow> CHR ''i'' \<notin> set w"
proof
  assume a: "is_separator w" and b: "CHR ''i'' \<in> set w"
  from a have "\<forall>c\<in>set w. c = CHR '' '' \<or> c = CHR 0x09"
    by (simp add: is_separator_def list_all_iff)
  from this b have "CHR ''i'' = CHR '' '' \<or> CHR ''i'' = CHR 0x09" by (rule bspec)
  then show False by simp
qed

lemma no_i_in_number: "is_number n \<Longrightarrow> CHR ''i'' \<notin> set n"
proof
  assume a: "is_number n" and b: "CHR ''i'' \<in> set n"
  from a have "\<forall>c\<in>set n. is_digit c"
    by (simp add: is_number_def list_all_iff)
  from this b have "is_digit CHR ''i''" by (rule bspec)
  then show False by (simp add: is_digit_def)
qed

lemma no_i_in_decimal: "is_decimal d \<Longrightarrow> CHR ''i'' \<notin> set d"
proof -
  assume "is_decimal d"
  then obtain sg ip fp where d: "d = sg @ ip @ ''.'' @ fp"
    and sg: "sg = [] \<or> sg = ''+'' \<or> sg = ''-''" and ip: "is_number ip" and fp: "is_number fp"
    by (rule decimal_parts)
  have "CHR ''i'' \<notin> set sg" using sg by (elim disjE) simp_all
  moreover have "CHR ''i'' \<notin> set ip" using ip by (rule no_i_in_number)
  moreover have "CHR ''i'' \<notin> set fp" using fp by (rule no_i_in_number)
  ultimately show ?thesis unfolding d by simp
qed

text \<open>The scan passes over a corrupted line without a match.\<close>

lemma finditer_corrupted:
  assumes "corrupted_line ws n d a x p"
  shows "finditer pattern (log_record ws n d a x p @ t) = finditer pattern t"
proof -
  have len: "length ws = 6" "list_all is_separator ws"
    and f: "is_number n" "is_decimal d" "is_decimal a" "is_number p"
    and x: "list_all (\<lambda>ch. \<not> is_space ch) x"
    using assms by (simp_all add: corrupted_line_def)
  from len obtain w1 w2 w3 w4 w5 w6 where ws: "ws = [w1, w2, w3, w4, w5, w6]"
    and sep: "is_separator w1" "is_separator w2" "is_separator w3"
      "is_separator w4" "is_separator w5" "is_separator w6"
    by (rule six_separators)
  let ?u = "''nfo'' @ w1 @ ''rcv'' @ w2 @ n @ w3 @ d @ w4 @ a @ w5"
  have rec: "log_record ws n d a x p @ t = CHR ''i'' # ?u @ x @ w6 @ ''cy='' @ p @ t"
    by (simp add: ws)
  have "bt pattern (CHR ''i'' # ?u @ x @ w6 @ ''cy='' @ p @ t) None [] = None"
    using bt_corrupted [OF assms, of t] unfolding rec .
  then have "finditer pattern (log_record ws n d a x p @ t) =
             finditer pattern (?u @ x @ w6 @ ''cy='' @ p @ t)"
    unfolding rec by (rule finditer_step_none)
  also have "\<dots> = finditer pattern (x @ w6 @ ''cy='' @ p @ t)"
  proof (rule skip_without_i)
    show "CHR ''i'' \<notin> set ?u"
      using no_i_in_separator [OF sep(1)] no_i_in_separator [OF sep(2)]
        no_i_in_separator [OF sep(3)] no_i_in_separator [OF sep(4)] no_i_in_separator [OF sep(5)]
        no_i_in_number [OF f(1)] no_i_in_decimal [OF f(2)] no_i_in_decimal [OF f(3)]
      by simp
  qed
  also have "\<dots> = finditer pattern (w6 @ ''cy='' @ p @ t)"
    using x sep(6) by (rule skip_field)
  also have "\<dots> = finditer pattern t"
  proof -
    have "CHR ''i'' \<notin> set (w6 @ ''cy='' @ p)"
      using no_i_in_separator [OF sep(6)] no_i_in_number [OF f(4)] by simp
    then have "finditer pattern ((w6 @ ''cy='' @ p) @ t) = finditer pattern t"
      by (rule skip_without_i)
    then show ?thesis by simp
  qed
  finally show ?thesis .
qed

text \<open>The scan takes a well-formed line as one match and goes on after it.\<close>

lemma finditer_well_formed:
  assumes "well_formed_line ws n d a c p" and "takeWhile is_digit t = []"
  shows "finditer pattern (log_record ws n d a c p @ t) = [d, a, c, p] # finditer pattern t"
proof (rule finditer_step_some)
  show "bt pattern (log_record ws n d a c p @ t) None [] = Some ([d, a, c, p], t)"
    using assms by (rule bt_well_formed)
  have "length ws = 6" using assms(1) by (simp add: well_formed_line_def)
  then obtain w1 w2 w3 w4 w5 w6 where "ws = [w1, w2, w3, w4, w5, w6]"
    by (auto simp add: length_Suc_conv eval_nat_numeral)
  then show "length t < length (log_record ws n d a c p @ t)" by simp
qed


subsection \<open>Conversion of the captured fields\<close>

lemma py_float_decimal: "is_decimal d \<Longrightarrow> \<exists>v. py_float d = Some v"
  by (auto simp add: is_decimal_def py_float_def Let_def split: list.splits)

lemma py_float_number:
  assumes "is_number p"
  shows "\<exists>v. py_float p = Some v"
proof -
  obtain c cs where p: "p = c # cs" and c: "is_digit c" and all: "list_all is_digit p"
    using assms by (cases p) (auto simp add: is_number_def)
  have "c \<noteq> CHR ''-''" "c \<noteq> CHR ''+''" using digit_not_mark [OF c] by simp_all
  then have body: "strip_sign p = (1, p)" by (simp add: strip_sign_def p)
  have tw: "takeWhile is_digit p = p" and dw: "dropWhile is_digit p = []"
    using all by (simp_all add: list_all_iff)
  have ne: "p \<noteq> []" using p by simp
  show ?thesis
    unfolding py_float_def body Let_def fst_conv snd_conv tw dw using ne by simp
qed

lemma convert_well_formed:
  assumes "well_formed_line ws n d a c p"
  shows "\<exists>vd va vc vy. py_float d = Some vd \<and> py_float a = Some va \<and> py_float c = Some vc
           \<and> py_float p = Some vy
           \<and> convert_match [d, a, c, p] = Some (vd, va, vc, vy / 1000000)"
proof -
  have f: "is_decimal d" "is_decimal a" "is_decimal c" "is_number p"
    using assms by (simp_all add: well_formed_line_def)
  obtain vd va vc vy where "py_float d = Some vd" "py_float a = Some va" "py_float c = Some vc"
      "py_float p = Some vy"
    using py_float_decimal [OF f(1)] py_float_decimal [OF f(2)] py_float_decimal [OF f(3)]
      py_float_number [OF f(4)] by auto
  then show ?thesis by (simp add: convert_match_def)
qed

lemma line_feed: "CHR 0x0A \<noteq> CHR ''i''" "takeWhile is_digit (CHR 0x0A # t) = []"
  by (simp_all add: is_digit_def)

lemma skip_line_feed: "finditer pattern (CHR 0x0A # t) = finditer pattern t"
  using skip_without_i [of "[CHR 0x0A]" t] by simp

text \<open>The two lines, in either order, give the one match of the well-formed line.\<close>

lemma finditer_two_lines:
  assumes "well_formed_line ws n d a c p" and "corrupted_line ws' n' d' a' x p'"
  shows "finditer pattern (log_record ws n d a c p @ [CHR 0x0A]
                            @ log_record ws' n' d' a' x p' @ [CHR 0x0A]) = [[d, a, c, p]]"
    and "finditer pattern (log_record ws' n' d' a' x p' @ [CHR 0x0A]
                            @ log_record ws n d a c p @ [CHR 0x0A]) = [[d, a, c, p]]"
proof -
  have tail: "finditer pattern [CHR 0x0A] = []"
    using skip_line_feed [of "[]"] by (simp add: finditer_pattern_end)
  have "finditer pattern (log_record ws n d a c p @ CHR 0x0A # log_record ws' n' d' a' x p' @ [CHR 0x0A]) =
        [d, a, c, p] # finditer pattern (CHR 0x0A # log_record ws' n' d' a' x p' @ [CHR 0x0A])"
    using assms(1) line_feed(2) by (rule finditer_well_formed)
  also have "\<dots> = [d, a, c, p] # finditer pattern (log_record ws' n' d' a' x p' @ [CHR 0x0A])"
    by (simp only: skip_line_feed)
  also have "\<dots> = [d, a, c, p] # finditer pattern [CHR 0x0A]"
    by (simp only: finditer_corrupted [OF assms(2)])
  finally show "finditer pattern (log_record ws n d a c p @ [CHR 0x0A]
                            @ log_record ws' n' d' a' x p' @ [CHR 0x0A]) = [[d, a, c, p]]"
    by (simp add: tail)
  have "finditer pattern (log_record ws' n' d' a' x p' @ CHR 0x0A # log_record ws n d a c p @ [CHR 0x0A]) =
        finditer pattern (CHR 0x0A # log_record ws n d a c p @ [CHR 0x0A])"
    using assms(2) by (rule finditer_corrupted)
  also have "\<dots> = finditer pattern (log_record ws n d a c p @ [CHR 0x0A])"
    by (simp only: skip_line_feed)
  also have "\<dots> = [d, a, c, p] # finditer pattern [CHR 0x0A]"
    using assms(1) line_feed(2) by (rule finditer_well_formed)
  finally show "finditer pattern (log_record ws' n' d' a' x p' @ [CHR 0x0A]
                            @ log_record ws n d a c p @ [CHR 0x0A]) = [[d, a, c, p]]"
    by (simp add: tail)
qed

text \<open>
  C8. A journal of two lines, each ended by a line feed, in either order: one well-formed
  line, and one line that is well formed but for its correction field, which is any text
  without blanks that is not a signed decimal. The extractor returns the four lists with
  one value each, the values of the well-formed line. (The corrupted line is never
  converted: the pattern does not match it, and no match starts inside it. The extractor is
  a total function here: the only exception of its loop is the one it catches.)
\<close>

theorem corrupted_line_tolerated:
  assumes "well_formed_line ws n d a c p" and "corrupted_line ws' n' d' a' x p'"
    and "logs = log_record ws n d a c p @ [CHR 0x0A] @ log_record ws' n' d' a' x p' @ [CHR 0x0A]
       \<or> logs = log_record ws' n' d' a' x p' @ [CHR 0x0A] @ log_record ws n d a c p @ [CHR 0x0A]"
  shows "\<exists>vd va vc vy. py_float d = Some vd \<and> py_float a = Some va \<and> py_float c = Some vc
           \<and> py_float p = Some vy
           \<and> parse_diretta_logs logs =
               [(''buffer_diff'', [vd]), (''buffer_avg'', [va]), (''correction'', [vc]),
                (''cycle_times'', [vy / 1000000])]"
proof -
  have m: "finditer pattern logs = [[d, a, c, p]]"
    using assms(3) finditer_two_lines [OF assms(1,2)] by (elim disjE) simp_all
  obtain vd va vc vy where v: "py_float d = Some vd" "py_float a = Some va" "py_float c = Some vc"
      "py_float p = Some vy" "convert_match [d, a, c, p] = Some (vd, va, vc, vy / 1000000)"
    using convert_well_formed [OF assms(1)] by auto
  have "parse_diretta_logs logs =
               [(''buffer_diff'', [vd]), (''buffer_avg'', [va]), (''correction'', [vc]),
                (''cycle_times'', [vy / 1000000])]"
    using parse_from_matches [OF m] by (simp add: List.map_filter_simps v(5))
  with v(1-4) show ?thesis by blast
qed

text \<open>
  The line of the docstring, after a line whose correction has the letter O for a zero.
\<close>

theorem corrupted_line_tolerated_witness:
  "well_formed_line ['' '', '' '', '' '', '' '', ''  '', '' ''] ''2'' ''-0.0110'' ''-0.0110'' ''0.0019'' ''3185960450''
   \<and> corrupted_line ['' '', '' '', '' '', '' '', '' '', '' ''] ''2'' ''-0.0112'' ''-0.0110'' ''0.0O21'' ''3185960462''
   \<and> parse_diretta_logs
        (''info rcv 2 -0.0112 -0.0110 0.0O21 cy=3185960462'' @ [CHR 0x0A]
         @ ''info rcv 2 -0.0110 -0.0110  0.0019 cy=3185960450'' @ [CHR 0x0A]) =
       [(''buffer_diff'', [-0.011]), (''buffer_avg'', [-0.011]), (''correction'', [0.0019]),
        (''cycle_times'', [3185.96045])]"
proof -
  have wf: "well_formed_line ['' '', '' '', '' '', '' '', ''  '', '' ''] ''2'' ''-0.0110'' ''-0.0110'' ''0.0019'' ''3185960450''"
    by (simp add: well_formed_line_def is_separator_def is_number_def is_decimal_def
        strip_sign_def is_digit_def Let_def)
  have cl: "corrupted_line ['' '', '' '', '' '', '' '', '' '', '' ''] ''2'' ''-0.0112'' ''-0.0110'' ''0.0O21'' ''3185960462''"
    by (simp add: corrupted_line_def is_separator_def is_number_def is_decimal_def
        strip_sign_def is_digit_def is_space_def Let_def)
  have tx: "''info rcv 2 -0.0112 -0.0110 0.0O21 cy=3185960462'' @ [CHR 0x0A]
         @ ''info rcv 2 -0.0110 -0.0110  0.0019 cy=3185960450'' @ [CHR 0x0A] =
       log_record ['' '', '' '', '' '', '' '', '' '', '' ''] ''2'' ''-0.0112'' ''-0.0110'' ''0.0O21'' ''3185960462''
         @ [CHR 0x0A]
         @ log_record ['' '', '' '', '' '', '' '', ''  '', '' ''] ''2'' ''-0.0110'' ''-0.0110'' ''0.0019'' ''3185960450''
         @ [CHR 0x0A]"
    by simp
  show ?thesis
    using wf cl corrupted_line_tolerated [OF wf cl disjI2 [OF tx]]
    by (auto simp add: float_examples)
qed


end
